theory Spec2Isabelle
  imports Main "HOL-Library.Word"
begin

section \<open>The PVR client registry of \<^verbatim>\<open>xbmc/pvr/addons/PVRClients.cpp\<close>\<close>

text \<open>
  A shallow embedding of \<^verbatim>\<open>CPVRClients\<close>: the derivation of client ids, the registry
  \<^verbatim>\<open>m_clientMap\<close> and its queries, \<^verbatim>\<open>StopClient\<close>, the fan-out functions
  \<^verbatim>\<open>ForCreatedClients\<close> and \<^verbatim>\<open>ForClients\<close>, the connection state notifier and
  \<^verbatim>\<open>UpdateAddons\<close>.

  Client objects live behind \<^verbatim>\<open>std::shared_ptr\<close>; they are modelled by addresses into a
  heap, so that a method called through one pointer is seen through every other pointer
  to the same object. Every call that leaves the class (the log, the job manager, the
  PVR manager, the progress dialog, the application messenger, the methods of a client)
  is recorded, in order, in the trace of the world.
\<close>

subsection \<open>Types declared outside the file\<close>

text \<open>
  \<^verbatim>\<open>ADDON::AddonInstanceId\<close> is an unsigned 32 bit integer, \<^verbatim>\<open>int\<close> is 32 bits wide and
  \<^verbatim>\<open>size_t\<close>, the result type of \<^verbatim>\<open>std::hash\<close>, is taken 64 bits wide (only its low 32
  bits are used).
\<close>

type_synonym AddonInstanceId = "32 word"
type_synonym addr = nat

text \<open>
  The enumerations name the enumerators the file mentions; the last constructor of each
  stands for every other value of the C enumeration.
\<close>

datatype PVR_ERROR =
    PVR_ERROR_NO_ERROR
  | PVR_ERROR_NOT_IMPLEMENTED
  | PVR_ERROR_SERVER_ERROR
  | PVR_ERROR_OTHER int

datatype ADDON_STATUS =
    ADDON_STATUS_OK
  | ADDON_STATUS_PERMANENT_FAILURE
  | ADDON_STATUS_OTHER int

datatype PVR_CONNECTION_STATE =
    PVR_CONNECTION_STATE_UNKNOWN
  | PVR_CONNECTION_STATE_SERVER_UNREACHABLE
  | PVR_CONNECTION_STATE_SERVER_MISMATCH
  | PVR_CONNECTION_STATE_VERSION_MISMATCH
  | PVR_CONNECTION_STATE_ACCESS_DENIED
  | PVR_CONNECTION_STATE_CONNECTED
  | PVR_CONNECTION_STATE_DISCONNECTED
  | PVR_CONNECTION_STATE_CONNECTING
  | PVR_CONNECTION_STATE_OTHER int

text \<open>
  What the file reads of a \<^verbatim>\<open>CPVRClient\<close>: the add-on id \<^verbatim>\<open>ID()\<close>, the instance id, the
  client id \<^verbatim>\<open>GetID()\<close>, the two status flags, name and icon, the previous connection
  state, and the value \<^verbatim>\<open>GetSettingBool(ADDON_SETTING_INSTANCE_ENABLED_VALUE, ..)\<close> of the
  client's add-on yields for the client's instance (\<open>None\<close>: the setting is not there and
  the output parameter keeps its value).
\<close>

record CPVRClient =
  ID :: string
  InstanceId :: AddonInstanceId
  GetID :: int
  ReadyToUse :: bool
  IgnoreClient :: bool
  Name :: string
  Icon :: string
  GetPreviousConnectionState :: PVR_CONNECTION_STATE
  InstanceEnabledSetting :: "bool option"

text \<open>An entry of the add-on manager's inventory of PVR client add-ons.\<close>

record AddonInfo =
  addon_ID :: string
  addon_Name :: string
  addon_Icon :: string
  GetKnownInstanceIds :: "AddonInstanceId list"
  IsAddonDisabled :: bool

text \<open>
  The constants and the collaborators the file uses and does not define are parameters
  of the model: the string hash (implementation defined), the two instance id constants,
  \<^verbatim>\<open>PVR_INVALID_CLIENT_ID\<close>, the string table, and what the constructor and the methods
  \<^verbatim>\<open>Create\<close>, \<^verbatim>\<open>ReCreate\<close>, \<^verbatim>\<open>Destroy\<close> and \<^verbatim>\<open>ReloadSettings\<close> do to a client object.
\<close>

record env =
  hasher :: "string \<Rightarrow> 64 word"
  ADDON_SINGLETON_INSTANCE_ID :: AddonInstanceId
  ADDON_FIRST_INSTANCE_ID :: AddonInstanceId
  PVR_INVALID_CLIENT_ID :: int
  localize :: "int \<Rightarrow> string"
  construct :: "AddonInfo \<Rightarrow> AddonInstanceId \<Rightarrow> CPVRClient"
  Create :: "CPVRClient \<Rightarrow> int \<Rightarrow> ADDON_STATUS \<times> CPVRClient"
  ReCreate :: "CPVRClient \<Rightarrow> CPVRClient"
  Destroy :: "CPVRClient \<Rightarrow> CPVRClient"
  ReloadSettings :: "CPVRClient \<Rightarrow> CPVRClient"

subsection \<open>Client id derivation\<close>

text \<open>\<^verbatim>\<open>std::to_string\<close> of an unsigned integer: its decimal digits.\<close>

fun to_string_nat :: "nat \<Rightarrow> string" where
  "to_string_nat n =
     (if n < 10 then [char_of (48 + n)]
      else to_string_nat (n div 10) @ [char_of (48 + n mod 10)])"

declare to_string_nat.simps [simp del]

definition to_string :: "AddonInstanceId \<Rightarrow> string" where
  "to_string i = to_string_nat (unat i)"

text \<open>The argument of the hasher in \<^verbatim>\<open>ClientIdFromAddonIdAndInstanceId\<close>.\<close>

definition hash_input :: "env \<Rightarrow> string \<Rightarrow> AddonInstanceId \<Rightarrow> string" where
  "hash_input e addonID instanceID =
     (if instanceID > ADDON_FIRST_INSTANCE_ID e then to_string instanceID @ ''@'' else '''')
       @ addonID"

text \<open>
  \<^verbatim>\<open>static_cast<int>\<close> keeps the low 32 bits of the hash; \<^verbatim>\<open>-iClientId\<close> is the
  negation of a 32 bit integer, which wraps around at \<^verbatim>\<open>INT_MIN\<close> on the two's complement
  machines Kodi runs on (the C++ standard leaves that one negation undefined).
\<close>

definition ClientIdFromAddonIdAndInstanceId :: "env \<Rightarrow> string \<Rightarrow> AddonInstanceId \<Rightarrow> int" where
  "ClientIdFromAddonIdAndInstanceId e addonID instanceID =
     (let iClientId = (ucast (hasher e (hash_input e addonID instanceID)) :: 32 word);
          iClientId = (if sint iClientId < 0 then - iClientId else iClientId)
      in sint iClientId)"

subsection \<open>The world: heap, registry, collaborators\<close>

record CPVREventLogJob =
  bNotify :: bool
  bError :: bool
  job_label :: string
  job_msg :: string
  job_icon :: string

datatype log_message =
    NotCallingNotConnected string string
  | NotCallingNotReady string string
  | NotCallingUnexpected string string
  | UnknownConnectionState
  | FailedToCreate string ADDON_STATUS
  | IncorrectAddonType

datatype event =
    Log_WARNING log_message
  | Log_ERROR log_message
  | Call_function addr PVR_ERROR
  | SendMsg_TMSG_MEDIA_STOP
  | Client_Create addr int ADDON_STATUS
  | Client_ReCreate addr
  | Client_Destroy addr
  | Addon_ReloadSettings addr AddonInstanceId
  | PVRManager_Stop
  | PVRManager_Start
  | ProgressHandler_new string
  | UpdateProgress string nat nat
  | ProgressHandler_reset
  | DisableAddon string
  | AddJob CPVREventLogJob

record world =
  heap :: "addr \<Rightarrow> CPVRClient"
  next_addr :: addr
  m_clientMap :: "(int \<times> addr) list"
  addons :: "AddonInfo list"
  IsPlaying :: bool
  trace :: "event list"

definition emit :: "event \<Rightarrow> world \<Rightarrow> world" where
  "emit ev w = w\<lparr>trace := trace w @ [ev]\<rparr>"

subsection \<open>Client access\<close>

text \<open>
  \<^verbatim>\<open>std::map::find\<close> on the registry, a list of entries in key order: the first entry
  with the key.
\<close>

definition GetClient :: "env \<Rightarrow> world \<Rightarrow> int \<Rightarrow> addr option" where
  "GetClient e w iClientId =
     (if iClientId \<le> PVR_INVALID_CLIENT_ID e then None
      else map_of (m_clientMap w) iClientId)"

definition GetClientId :: "world \<Rightarrow> string \<Rightarrow> AddonInstanceId \<Rightarrow> int" where
  "GetClientId w addonId instanceId =
     (case find (\<lambda>entry. ID (heap w (snd entry)) = addonId
                          \<and> InstanceId (heap w (snd entry)) = instanceId) (m_clientMap w) of
        Some entry \<Rightarrow> fst entry
      | None \<Rightarrow> - 1)"

text \<open>
  \<^verbatim>\<open>std::count_if\<close> counts in a 64 bit signed integer; the function returns \<^verbatim>\<open>int\<close>, so
  the count is narrowed to 32 bits.
\<close>

definition narrow_int :: "nat \<Rightarrow> int" where
  "narrow_int n = sint (word_of_nat n :: 32 word)"

definition CreatedClientAmount :: "world \<Rightarrow> int" where
  "CreatedClientAmount w =
     narrow_int (length (filter (\<lambda>client. ReadyToUse (heap w (snd client))) (m_clientMap w)))"

definition HasCreatedClients :: "world \<Rightarrow> bool" where
  "HasCreatedClients w =
     list_ex (\<lambda>client. ReadyToUse (heap w (snd client))) (m_clientMap w)"

definition IsKnownClient :: "world \<Rightarrow> string \<Rightarrow> AddonInstanceId \<Rightarrow> bool" where
  "IsKnownClient w addonId instanceId = (GetClientId w addonId instanceId > 0)"

definition IsCreatedClient :: "world \<Rightarrow> string \<Rightarrow> AddonInstanceId \<Rightarrow> bool" where
  "IsCreatedClient w addonId instanceId =
     (case find (\<lambda>client. ID (heap w (snd client)) = addonId
                          \<and> InstanceId (heap w (snd client)) = instanceId) (m_clientMap w) of
        Some client \<Rightarrow> ReadyToUse (heap w (snd client))
      | None \<Rightarrow> False)"

text \<open>
  The test both scans of the registry apply to an entry: the client behind it belongs to
  the add-on and the instance.
\<close>

definition is_client :: "world \<Rightarrow> string \<Rightarrow> AddonInstanceId \<Rightarrow> int \<times> addr \<Rightarrow> bool" where
  "is_client w addonId instanceId entry \<longleftrightarrow>
     ID (heap w (snd entry)) = addonId \<and> InstanceId (heap w (snd entry)) = instanceId"

subsection \<open>Stopping a client\<close>

text \<open>
  Modelled from the spec: the application messenger and the playback state are not in
  the file. \<^verbatim>\<open>SendMsg(TMSG_MEDIA_STOP)\<close> is the spec's command to stop active playback; it
  waits until the application has handled the message, so playback has stopped when it
  returns.
\<close>

definition SendMsg_MEDIA_STOP :: "world \<Rightarrow> world" where
  "SendMsg_MEDIA_STOP w = emit SendMsg_TMSG_MEDIA_STOP (w\<lparr>IsPlaying := False\<rparr>)"

definition stop_playback_if_needed :: "world \<Rightarrow> world" where
  "stop_playback_if_needed w = (if IsPlaying w then SendMsg_MEDIA_STOP w else w)"

text \<open>A method of a client changes the object behind the pointer and is recorded.\<close>

definition client_ReCreate :: "env \<Rightarrow> addr \<Rightarrow> world \<Rightarrow> world" where
  "client_ReCreate e a w =
     emit (Client_ReCreate a) (w\<lparr>heap := (heap w)(a := ReCreate e (heap w a))\<rparr>)"

definition client_Destroy :: "env \<Rightarrow> addr \<Rightarrow> world \<Rightarrow> world" where
  "client_Destroy e a w =
     emit (Client_Destroy a) (w\<lparr>heap := (heap w)(a := Destroy e (heap w a))\<rparr>)"

text \<open>\<^verbatim>\<open>m_clientMap.find(iId)\<close> followed by \<^verbatim>\<open>erase(it)\<close>: the entry found is removed.\<close>

fun map_erase :: "int \<Rightarrow> (int \<times> 'a) list \<Rightarrow> (int \<times> 'a) list" where
  "map_erase iId [] = []"
| "map_erase iId (entry # m) = (if fst entry = iId then m else entry # map_erase iId m)"

definition StopClient :: "env \<Rightarrow> string \<Rightarrow> AddonInstanceId \<Rightarrow> bool \<Rightarrow> world \<Rightarrow> bool \<times> world" where
  "StopClient e addonId instanceId bRestart w =
     (let w = stop_playback_if_needed w;
          iId = GetClientId w addonId instanceId
      in case GetClient e w iId of
           Some mappedClient \<Rightarrow>
             if bRestart then (True, client_ReCreate e mappedClient w)
             else (True, client_Destroy e mappedClient
                           (w\<lparr>m_clientMap := map_erase iId (m_clientMap w)\<rparr>))
         | None \<Rightarrow> (False, w))"

subsection \<open>Connection state changes\<close>

text \<open>
  The \<^verbatim>\<open>switch\<close> of \<^verbatim>\<open>ConnectionStateChange\<close>: the message number, \<^verbatim>\<open>bError\<close> and
  \<^verbatim>\<open>bNotify\<close> for the new state, given the previous state of the client; \<open>None\<close> is the
  \<^verbatim>\<open>default\<close> label, which logs and returns.
\<close>

definition first_notification :: "PVR_CONNECTION_STATE \<Rightarrow> bool" where
  "first_notification previous =
     (previous = PVR_CONNECTION_STATE_UNKNOWN \<or> previous = PVR_CONNECTION_STATE_CONNECTING)"

fun connection_state_switch ::
  "PVR_CONNECTION_STATE \<Rightarrow> PVR_CONNECTION_STATE \<Rightarrow> (int \<times> bool \<times> bool) option" where
  "connection_state_switch PVR_CONNECTION_STATE_SERVER_UNREACHABLE previous =
     Some (35505, True, if first_notification previous then False else True)"
| "connection_state_switch PVR_CONNECTION_STATE_SERVER_MISMATCH previous =
     Some (35506, True, True)"
| "connection_state_switch PVR_CONNECTION_STATE_VERSION_MISMATCH previous =
     Some (35507, True, True)"
| "connection_state_switch PVR_CONNECTION_STATE_ACCESS_DENIED previous =
     Some (35508, True, True)"
| "connection_state_switch PVR_CONNECTION_STATE_CONNECTED previous =
     Some (36034, False, if first_notification previous then False else True)"
| "connection_state_switch PVR_CONNECTION_STATE_DISCONNECTED previous =
     Some (36030, True, True)"
| "connection_state_switch PVR_CONNECTION_STATE_CONNECTING previous =
     Some (35509, False, False)"
| "connection_state_switch PVR_CONNECTION_STATE_UNKNOWN previous = None"
| "connection_state_switch (PVR_CONNECTION_STATE_OTHER n) previous = None"

definition ConnectionStateChange ::
  "env \<Rightarrow> addr option \<Rightarrow> string \<Rightarrow> PVR_CONNECTION_STATE \<Rightarrow> string \<Rightarrow> world \<Rightarrow> world" where
  "ConnectionStateChange e client strConnectionString newState strMessage w =
     (case client of
        None \<Rightarrow> w
      | Some c \<Rightarrow>
          (case connection_state_switch newState (GetPreviousConnectionState (heap w c)) of
             None \<Rightarrow> emit (Log_ERROR UnknownConnectionState) w
           | Some (iMsg, is_error, notify) \<Rightarrow>
               (let strMsg = (if strMessage \<noteq> [] then strMessage else localize e iMsg)
                in emit (AddJob \<lparr>bNotify = notify, bError = is_error,
                                  job_label = Name (heap w c), job_msg = strMsg,
                                  job_icon = Icon (heap w c)\<rparr>) w)))"

subsection \<open>Fan-out over clients\<close>

text \<open>The line \<^verbatim>\<open>LogClientWarning\<close> writes for a client.\<close>

definition client_warning :: "string \<Rightarrow> CPVRClient \<Rightarrow> event" where
  "client_warning strFunctionName client =
     (if IgnoreClient client
      then Log_WARNING (NotCallingNotConnected strFunctionName (ID client))
      else if \<not> ReadyToUse client
      then Log_WARNING (NotCallingNotReady strFunctionName (ID client))
      else Log_ERROR (NotCallingUnexpected strFunctionName (ID client)))"

definition LogClientWarning :: "string \<Rightarrow> addr \<Rightarrow> world \<Rightarrow> world" where
  "LogClientWarning strFunctionName client w =
     emit (client_warning strFunctionName (heap w client)) w"

text \<open>
  \<^verbatim>\<open>std::map::insert\<close> on a map kept in key order: nothing happens when the key is
  there already.
\<close>

fun map_insert :: "int \<times> 'a \<Rightarrow> (int \<times> 'a) list \<Rightarrow> (int \<times> 'a) list" where
  "map_insert kv [] = [kv]"
| "map_insert kv (entry # m) =
     (if fst kv = fst entry then entry # m
      else if fst kv < fst entry then kv # entry # m
      else entry # map_insert kv m)"

text \<open>
  Modelled from the spec: the add-on manager is not in the file. Its inventory of PVR
  client add-ons is the list \<open>addons\<close> of the world, each entry with the flag
  \<^verbatim>\<open>IsAddonDisabled\<close> answers for its id; \<^verbatim>\<open>GetAddonInfos\<close> returns the inventory, the
  enabled entries alone when asked so.
\<close>

definition GetAddonInfos :: "world \<Rightarrow> bool \<Rightarrow> AddonInfo list" where
  "GetAddonInfos w enabledOnly =
     (if enabledOnly then filter (\<lambda>addon. \<not> IsAddonDisabled addon) (addons w) else addons w)"

text \<open>
  \<^verbatim>\<open>GetCallableClients\<close>: the inner loop over the instances of one add-on, and the outer
  loop over the enabled add-ons. The state is the pair of \<^verbatim>\<open>clientsReady\<close> and
  \<^verbatim>\<open>clientsNotReady\<close>.
\<close>

fun GetCallableClients_instances ::
  "env \<Rightarrow> world \<Rightarrow> string \<Rightarrow> AddonInstanceId list \<Rightarrow> (int \<times> addr) list \<times> int list
     \<Rightarrow> (int \<times> addr) list \<times> int list" where
  "GetCallableClients_instances e w addonID [] st = st"
| "GetCallableClients_instances e w addonID (instanceId # instanceIds) (clientsReady, clientsNotReady) =
     (let iClientId = ClientIdFromAddonIdAndInstanceId e addonID instanceId
      in GetCallableClients_instances e w addonID instanceIds
           (case GetClient e w iClientId of
              Some client \<Rightarrow>
                if ReadyToUse (heap w client) \<and> \<not> IgnoreClient (heap w client)
                then (map_insert (iClientId, client) clientsReady, clientsNotReady)
                else (clientsReady, clientsNotReady @ [iClientId])
            | None \<Rightarrow> (clientsReady, clientsNotReady @ [iClientId])))"

fun GetCallableClients_addons ::
  "env \<Rightarrow> world \<Rightarrow> AddonInfo list \<Rightarrow> (int \<times> addr) list \<times> int list
     \<Rightarrow> (int \<times> addr) list \<times> int list" where
  "GetCallableClients_addons e w [] st = st"
| "GetCallableClients_addons e w (addon # rest) st =
     GetCallableClients_addons e w rest
       (GetCallableClients_instances e w (addon_ID addon) (GetKnownInstanceIds addon) st)"

definition GetCallableClients ::
  "env \<Rightarrow> world \<Rightarrow> (int \<times> addr) list \<Rightarrow> PVR_ERROR \<times> (int \<times> addr) list \<times> int list" where
  "GetCallableClients e w clientsReady =
     (let (ready, clientsNotReady) =
            GetCallableClients_addons e w (GetAddonInfos w True) (clientsReady, [])
      in (if clientsNotReady = [] then PVR_ERROR_NO_ERROR else PVR_ERROR_SERVER_ERROR,
          ready, clientsNotReady))"

text \<open>
  The operation handed to the fan-out functions is a closure: it gets the client and
  its own state \<open>'s\<close> (what it captured), and returns an error code and the new state.
  Each call and its result are recorded in the trace.
\<close>

type_synonym 's PVRClientFunction = "addr \<Rightarrow> 's \<Rightarrow> PVR_ERROR \<times> 's"

fun log_failed_clients :: "env \<Rightarrow> string \<Rightarrow> int list \<Rightarrow> world \<Rightarrow> world" where
  "log_failed_clients e strFunctionName [] w = w"
| "log_failed_clients e strFunctionName (iId # ids) w =
     log_failed_clients e strFunctionName ids
       (case GetClient e w iId of
          Some client \<Rightarrow> LogClientWarning strFunctionName client w
        | None \<Rightarrow> w)"

fun ForCreatedClients_loop ::
  "'s PVRClientFunction \<Rightarrow> (int \<times> addr) list \<Rightarrow> PVR_ERROR \<times> int list \<times> 's \<times> world
     \<Rightarrow> PVR_ERROR \<times> int list \<times> 's \<times> world" where
  "ForCreatedClients_loop function [] st = st"
| "ForCreatedClients_loop function (clientEntry # clients) (lastError, failedClients, s, w) =
     (let (currentError, s') = function (snd clientEntry) s;
          w' = emit (Call_function (snd clientEntry) currentError) w
      in if currentError \<noteq> PVR_ERROR_NO_ERROR \<and> currentError \<noteq> PVR_ERROR_NOT_IMPLEMENTED
         then ForCreatedClients_loop function clients
                (currentError, failedClients @ [fst clientEntry], s', w')
         else ForCreatedClients_loop function clients (lastError, failedClients, s', w'))"

definition ForCreatedClients ::
  "env \<Rightarrow> string \<Rightarrow> 's PVRClientFunction \<Rightarrow> 's \<Rightarrow> world \<Rightarrow> PVR_ERROR \<times> int list \<times> 's \<times> world" where
  "ForCreatedClients e strFunctionName function s w =
     (let (ret, clients, failedClients) = GetCallableClients e w [];
          w = (if failedClients \<noteq> [] then log_failed_clients e strFunctionName failedClients w
               else w)
      in ForCreatedClients_loop function clients (PVR_ERROR_NO_ERROR, failedClients, s, w))"

text \<open>
  \<^verbatim>\<open>ForClients\<close>: the registry entries that are not ready, are ignored or were not asked
  for go to \<^verbatim>\<open>failedClients\<close> first; then the loop over the clients asked for.
\<close>

definition not_allowed_clients :: "world \<Rightarrow> addr list \<Rightarrow> int list" where
  "not_allowed_clients w clients =
     map fst (filter (\<lambda>entry.
         \<not> (ReadyToUse (heap w (snd entry)) \<and> \<not> IgnoreClient (heap w (snd entry))
            \<and> list_ex (\<lambda>client. GetID (heap w client) = fst entry) clients))
       (m_clientMap w))"

fun ForClients_loop ::
  "string \<Rightarrow> 's PVRClientFunction \<Rightarrow> addr list \<Rightarrow> PVR_ERROR \<times> int list \<times> 's \<times> world
     \<Rightarrow> PVR_ERROR \<times> int list \<times> 's \<times> world" where
  "ForClients_loop strFunctionName function [] st = st"
| "ForClients_loop strFunctionName function (client # clients) (lastError, failedClients, s, w) =
     (if list_all (\<lambda>failedClientId. failedClientId \<noteq> GetID (heap w client)) failedClients
      then
        (let (currentError, s') = function client s;
             w' = emit (Call_function client currentError) w
         in if currentError \<noteq> PVR_ERROR_NO_ERROR \<and> currentError \<noteq> PVR_ERROR_NOT_IMPLEMENTED
            then ForClients_loop strFunctionName function clients
                   (currentError, failedClients @ [GetID (heap w client)], s', w')
            else ForClients_loop strFunctionName function clients
                   (lastError, failedClients, s', w'))
      else ForClients_loop strFunctionName function clients
             (lastError, failedClients, s, LogClientWarning strFunctionName client w))"

definition ForClients ::
  "env \<Rightarrow> string \<Rightarrow> addr list \<Rightarrow> 's PVRClientFunction \<Rightarrow> 's \<Rightarrow> world
     \<Rightarrow> PVR_ERROR \<times> int list \<times> 's \<times> world" where
  "ForClients e strFunctionName clients function s w =
     (if clients = [] then ForCreatedClients e strFunctionName function s w
      else ForClients_loop strFunctionName function clients
             (PVR_ERROR_NO_ERROR, not_allowed_clients w clients, s, w))"

subsection \<open>Reconciliation with the add-on manager\<close>

text \<open>
  The three lists \<^verbatim>\<open>UpdateAddons\<close> computes. An entry of \<^verbatim>\<open>addonsToCreate\<close> holds a client
  pointer, which is null (\<open>None\<close>) when the lookup that should have set it found nothing.
\<close>

record actions =
  addonsToCreate :: "(addr option \<times> int) list"
  addonsToReCreate :: "(AddonInfo \<times> AddonInstanceId) list"
  addonsToDestroy :: "(AddonInfo \<times> AddonInstanceId) list"

definition no_actions :: actions where
  "no_actions = \<lparr>addonsToCreate = [], addonsToReCreate = [], addonsToDestroy = []\<rparr>"

text \<open>\<^verbatim>\<open>std::make_shared<CPVRClient>(addon, instanceId)\<close>: a new object on the heap.\<close>

definition make_shared :: "env \<Rightarrow> AddonInfo \<Rightarrow> AddonInstanceId \<Rightarrow> world \<Rightarrow> addr option \<times> world" where
  "make_shared e addon instanceId w =
     (Some (next_addr w),
      w\<lparr>heap := (heap w)(next_addr w := construct e addon instanceId),
        next_addr := Suc (next_addr w)\<rparr>)"

text \<open>
  \<^verbatim>\<open>GetSettingBool(ADDON_SETTING_INSTANCE_ENABLED_VALUE, instanceEnabled, instanceId)\<close> on
  the add-on of a client: the output parameter is written when the setting is there.
\<close>

definition GetSettingBool :: "CPVRClient \<Rightarrow> bool \<Rightarrow> bool" where
  "GetSettingBool client instanceEnabled =
     (case InstanceEnabledSetting client of Some b \<Rightarrow> b | None \<Rightarrow> instanceEnabled)"

definition addon_ReloadSettings :: "env \<Rightarrow> addr \<Rightarrow> AddonInstanceId \<Rightarrow> world \<Rightarrow> world" where
  "addon_ReloadSettings e a instanceId w =
     emit (Addon_ReloadSettings a instanceId)
       (w\<lparr>heap := (heap w)(a := ReloadSettings e (heap w a))\<rparr>)"

text \<open>
  The body of the loop over the instances of one add-on (lines 144 to 201). The result
  is \<open>None\<close> when the body dereferences a null client pointer.
\<close>

definition classify_instance ::
  "env \<Rightarrow> AddonInfo \<Rightarrow> AddonInstanceId \<times> bool \<Rightarrow> world \<times> actions \<Rightarrow> (world \<times> actions) option" where
  "classify_instance e addon instanceInfo st =
     (let w = fst st; acts = snd st;
          instanceId = fst instanceInfo; instanceEnabled = snd instanceInfo
      in if instanceEnabled
            \<and> (\<not> IsKnownClient w (addon_ID addon) instanceId
                \<or> \<not> IsCreatedClient w (addon_ID addon) instanceId)
         then
           (let iClientId = ClientIdFromAddonIdAndInstanceId e (addon_ID addon) instanceId;
                known = IsKnownClient w (addon_ID addon) instanceId;
                (client, w) = (if known then (GetClient e w iClientId, w)
                               else make_shared e addon instanceId w)
            in if \<not> known \<and> client = None
               then Some (emit (Log_ERROR IncorrectAddonType) w, acts)
               else if instanceId \<noteq> ADDON_SINGLETON_INSTANCE_ID e
               then (case client of
                       None \<Rightarrow> None
                     | Some c \<Rightarrow>
                         if GetSettingBool (heap w c) instanceEnabled
                         then Some (w, acts\<lparr>addonsToCreate :=
                                          addonsToCreate acts @ [(client, iClientId)]\<rparr>)
                         else Some (w, acts\<lparr>addonsToDestroy :=
                                          addonsToDestroy acts @ [(addon, instanceId)]\<rparr>))
               else Some (w, acts\<lparr>addonsToCreate :=
                                addonsToCreate acts @ [(client, iClientId)]\<rparr>))
         else if IsCreatedClient w (addon_ID addon) instanceId
         then
           (let (instanceEnabled, w) =
                  (if instanceEnabled \<and> instanceId \<noteq> ADDON_SINGLETON_INSTANCE_ID e
                   then (case GetClient e w (GetClientId w (addon_ID addon) instanceId) of
                           Some c \<Rightarrow>
                             (let w = addon_ReloadSettings e c instanceId w
                              in (GetSettingBool (heap w c) instanceEnabled, w))
                         | None \<Rightarrow> (False, w))
                   else (instanceEnabled, w))
            in if instanceEnabled
               then Some (w, acts\<lparr>addonsToReCreate :=
                                addonsToReCreate acts @ [(addon, instanceId)]\<rparr>)
               else Some (w, acts\<lparr>addonsToDestroy :=
                                addonsToDestroy acts @ [(addon, instanceId)]\<rparr>))
         else Some (w, acts))"

fun classify_instances ::
  "env \<Rightarrow> AddonInfo \<Rightarrow> (AddonInstanceId \<times> bool) list \<Rightarrow> world \<times> actions
     \<Rightarrow> (world \<times> actions) option" where
  "classify_instances e addon [] st = Some st"
| "classify_instances e addon (instanceInfo # instanceIdsWithStatus) st =
     (case classify_instance e addon instanceInfo st of
        None \<Rightarrow> None
      | Some st' \<Rightarrow> classify_instances e addon instanceIdsWithStatus st')"

text \<open>
  The instances of an add-on with the status of the add-on, and the changed instance as
  disabled when the add-on no longer knows it (lines 127 to 142).
\<close>

definition instanceIdsWithStatus ::
  "env \<Rightarrow> string \<Rightarrow> AddonInstanceId \<Rightarrow> AddonInfo \<Rightarrow> bool \<Rightarrow> (AddonInstanceId \<times> bool) list" where
  "instanceIdsWithStatus e changedAddonId changedInstanceId addon bEnabled =
     map (\<lambda>id. (id, bEnabled)) (GetKnownInstanceIds addon)
     @ (if changedInstanceId \<noteq> ADDON_SINGLETON_INSTANCE_ID e
           \<and> changedAddonId = addon_ID addon
           \<and> changedInstanceId \<notin> set (GetKnownInstanceIds addon)
        then [(changedInstanceId, False)] else [])"

fun classify_addons ::
  "env \<Rightarrow> string \<Rightarrow> AddonInstanceId \<Rightarrow> (AddonInfo \<times> bool) list \<Rightarrow> world \<times> actions
     \<Rightarrow> (world \<times> actions) option" where
  "classify_addons e changedAddonId changedInstanceId [] st = Some st"
| "classify_addons e changedAddonId changedInstanceId (addonWithStatus # addonsWithStatus) st =
     (case classify_instances e (fst addonWithStatus)
             (instanceIdsWithStatus e changedAddonId changedInstanceId
                (fst addonWithStatus) (snd addonWithStatus)) st of
        None \<Rightarrow> None
      | Some st' \<Rightarrow> classify_addons e changedAddonId changedInstanceId addonsWithStatus st')"

text \<open>
  Modelled from the spec: \<^verbatim>\<open>DisableAddon\<close> of the add-on manager, which is not in the file,
  is the spec's command to disable an add-on: the entries of the inventory with the id
  are disabled from then on.
\<close>

definition addonMgr_DisableAddon :: "string \<Rightarrow> world \<Rightarrow> world" where
  "addonMgr_DisableAddon addonId w =
     emit (DisableAddon addonId)
       (w\<lparr>addons := map (\<lambda>addon. if addon_ID addon = addonId
                                   then addon\<lparr>IsAddonDisabled := True\<rparr> else addon)
                         (addons w)\<rparr>)"

text \<open>The three loops that apply the lists, and the merge into the registry.\<close>

definition client_Create :: "env \<Rightarrow> addr \<Rightarrow> int \<Rightarrow> world \<Rightarrow> ADDON_STATUS \<times> world" where
  "client_Create e a iClientId w =
     (let (status, client) = Create e (heap w a) iClientId
      in (status, emit (Client_Create a iClientId status) (w\<lparr>heap := (heap w)(a := client)\<rparr>)))"

fun create_clients ::
  "env \<Rightarrow> nat \<Rightarrow> (addr option \<times> int) list \<Rightarrow> nat \<Rightarrow> world \<Rightarrow> (nat \<times> world) option" where
  "create_clients e size_total [] i w = Some (i, w)"
| "create_clients e size_total (addon # rest) i w =
     (case fst addon of
        None \<Rightarrow> None
      | Some a \<Rightarrow>
          (let w = emit (UpdateProgress (Name (heap w a)) i size_total) w;
               (status, w) = client_Create e a (snd addon) w;
               w = (if status \<noteq> ADDON_STATUS_OK
                    then (let w = emit (Log_ERROR (FailedToCreate (ID (heap w a)) status)) w
                          in if status = ADDON_STATUS_PERMANENT_FAILURE
                             then emit (AddJob \<lparr>bNotify = True, bError = True,
                                                job_label = Name (heap w a),
                                                job_msg = localize e 24070,
                                                job_icon = Icon (heap w a)\<rparr>)
                                    (addonMgr_DisableAddon (ID (heap w a)) w)
                             else w)
                    else w)
           in create_clients e size_total rest (Suc i) w))"

fun recreate_clients ::
  "env \<Rightarrow> nat \<Rightarrow> (AddonInfo \<times> AddonInstanceId) list \<Rightarrow> nat \<Rightarrow> world \<Rightarrow> world" where
  "recreate_clients e size_total [] i w = w"
| "recreate_clients e size_total (addon # rest) i w =
     recreate_clients e size_total rest (Suc i)
       (snd (StopClient e (addon_ID (fst addon)) (snd addon) True
               (emit (UpdateProgress (addon_Name (fst addon)) i size_total) w)))"

fun destroy_clients :: "env \<Rightarrow> (AddonInfo \<times> AddonInstanceId) list \<Rightarrow> world \<Rightarrow> world" where
  "destroy_clients e [] w = w"
| "destroy_clients e (addon # rest) w =
     destroy_clients e rest (snd (StopClient e (addon_ID (fst addon)) (snd addon) False w))"

fun update_created_clients_map :: "(addr option \<times> int) list \<Rightarrow> world \<Rightarrow> world" where
  "update_created_clients_map [] w = w"
| "update_created_clients_map (addon # rest) w =
     update_created_clients_map rest
       (case fst addon of
          Some a \<Rightarrow>
            if map_of (m_clientMap w) (snd addon) = None
            then w\<lparr>m_clientMap := map_insert (snd addon, a) (m_clientMap w)\<rparr>
            else w
        | None \<Rightarrow> w)"

definition apply_actions :: "env \<Rightarrow> actions \<Rightarrow> world \<Rightarrow> world option" where
  "apply_actions e acts w =
     (let size_total = length (addonsToCreate acts) + length (addonsToReCreate acts);
          w = emit PVRManager_Stop w;
          w = emit (ProgressHandler_new (localize e 19239)) w
      in case create_clients e size_total (addonsToCreate acts) 0 w of
           None \<Rightarrow> None
         | Some (i, w) \<Rightarrow>
             (let w = recreate_clients e size_total (addonsToReCreate acts) i w;
                  w = emit ProgressHandler_reset w;
                  w = destroy_clients e (addonsToDestroy acts) w;
                  w = (if addonsToCreate acts \<noteq> []
                       then update_created_clients_map (addonsToCreate acts) w else w)
              in Some (emit PVRManager_Start w)))"

definition UpdateAddons :: "env \<Rightarrow> string \<Rightarrow> AddonInstanceId \<Rightarrow> world \<Rightarrow> world option" where
  "UpdateAddons e changedAddonId changedInstanceId w =
     (let addonInfos = GetAddonInfos w False
      in if addonInfos = [] then Some w
         else
           (let bFoundChangedAddon =
                  (changedAddonId = []
                   \<or> list_ex (\<lambda>addon. addon_ID addon = changedAddonId) addonInfos);
                addonsWithStatus =
                  map (\<lambda>addon. (addon, \<not> IsAddonDisabled addon)) addonInfos
            in if \<not> bFoundChangedAddon then Some w
               else
                 (case classify_addons e changedAddonId changedInstanceId addonsWithStatus
                         (w, no_actions) of
                    None \<Rightarrow> None
                  | Some (w, acts) \<Rightarrow>
                      if addonsToCreate acts \<noteq> [] \<or> addonsToReCreate acts \<noteq> []
                         \<or> addonsToDestroy acts \<noteq> []
                      then apply_actions e acts w
                      else Some w)))"

text \<open>The lists \<^verbatim>\<open>UpdateAddons\<close> computes, when it gets as far as computing them.\<close>

definition computed_actions ::
  "env \<Rightarrow> string \<Rightarrow> AddonInstanceId \<Rightarrow> world \<Rightarrow> (world \<times> actions) option" where
  "computed_actions e changedAddonId changedInstanceId w =
     classify_addons e changedAddonId changedInstanceId
       (map (\<lambda>addon. (addon, \<not> IsAddonDisabled addon)) (GetAddonInfos w False))
       (w, no_actions)"

subsection \<open>Reading a trace\<close>

text \<open>
  What a pass added to the trace, the calls of the operation in it with their results,
  and the lines it wrote to the log.
\<close>

definition new_events :: "world \<Rightarrow> world \<Rightarrow> event list" where
  "new_events w w' = drop (length (trace w)) (trace w')"

fun calls :: "event list \<Rightarrow> (addr \<times> PVR_ERROR) list" where
  "calls [] = []"
| "calls (Call_function a r # evs) = (a, r) # calls evs"
| "calls (ev # evs) = calls evs"

fun is_log :: "event \<Rightarrow> bool" where
  "is_log (Log_WARNING m) = True"
| "is_log (Log_ERROR m) = True"
| "is_log ev = False"

definition logs :: "event list \<Rightarrow> event list" where
  "logs evs = filter is_log evs"

text \<open>A result the fan-out counts as a failure, and the last failure of a list of results.\<close>

definition is_failure :: "PVR_ERROR \<Rightarrow> bool" where
  "is_failure r \<longleftrightarrow> r \<noteq> PVR_ERROR_NO_ERROR \<and> r \<noteq> PVR_ERROR_NOT_IMPLEMENTED"

definition last_error :: "PVR_ERROR \<Rightarrow> PVR_ERROR list \<Rightarrow> PVR_ERROR" where
  "last_error none rs = (case filter is_failure rs of [] \<Rightarrow> none | errs \<Rightarrow> last errs)"

text \<open>
  The two results of \<^verbatim>\<open>GetCallableClients\<close> as \<^verbatim>\<open>ForCreatedClients\<close> gets them: the map of
  the clients it will call, and the ids it will not call.
\<close>

definition callable_clients :: "env \<Rightarrow> world \<Rightarrow> (int \<times> addr) list" where
  "callable_clients e w = fst (snd (GetCallableClients e w []))"

definition clients_not_ready :: "env \<Rightarrow> world \<Rightarrow> int list" where
  "clients_not_ready e w = snd (snd (GetCallableClients e w []))"


text \<open>A client both fan-out functions are willing to call.\<close>

definition callable :: "world \<Rightarrow> addr \<Rightarrow> bool" where
  "callable w a \<longleftrightarrow> ReadyToUse (heap w a) \<and> \<not> IgnoreClient (heap w a)"

text \<open>The number of actions in the three lists.\<close>

definition n_actions :: "actions \<Rightarrow> nat" where
  "n_actions acts =
     length (addonsToCreate acts) + length (addonsToReCreate acts)
       + length (addonsToDestroy acts)"

subsection \<open>Concrete inputs\<close>

text \<open>
  An environment for the concrete evaluations below: the instance id constants and
  \<^verbatim>\<open>PVR_INVALID_CLIENT_ID\<close> as Kodi's headers give them, the length of the string as a stand-in
  for the hash, and simple client methods.
\<close>

definition test_env :: env where
  "test_env =
     \<lparr>hasher = (\<lambda>s. word_of_nat (length s)),
      ADDON_SINGLETON_INSTANCE_ID = 0,
      ADDON_FIRST_INSTANCE_ID = 1,
      PVR_INVALID_CLIENT_ID = - 2,
      localize = (\<lambda>n. ''#'' @ to_string_nat (nat n)),
      construct = (\<lambda>addon instanceId.
        \<lparr>ID = addon_ID addon, InstanceId = instanceId, GetID = - 2, ReadyToUse = False,
         IgnoreClient = False, Name = addon_Name addon, Icon = addon_Icon addon,
         GetPreviousConnectionState = PVR_CONNECTION_STATE_UNKNOWN,
         InstanceEnabledSetting = Some True\<rparr>),
      Create = (\<lambda>c iClientId. (ADDON_STATUS_OK, c\<lparr>GetID := iClientId, ReadyToUse := True\<rparr>)),
      ReCreate = (\<lambda>c. c\<lparr>ReadyToUse := True\<rparr>),
      Destroy = (\<lambda>c. c\<lparr>ReadyToUse := False\<rparr>),
      ReloadSettings = (\<lambda>c. c)\<rparr>"


text \<open>
  A world with three registered clients: \<^verbatim>\<open>pvr.hts\<close> (id 7) and the first instance of
  \<^verbatim>\<open>pvr.demo\<close> (id 8) are ready to use, the second instance of \<^verbatim>\<open>pvr.demo\<close> (id 10) is
  not and has not connected yet. Playback is active.
\<close>

definition pvr_client :: "string \<Rightarrow> AddonInstanceId \<Rightarrow> int \<Rightarrow> bool \<Rightarrow> bool \<Rightarrow> CPVRClient" where
  "pvr_client addonId instanceId iClientId ready ignore =
     \<lparr>ID = addonId, InstanceId = instanceId, GetID = iClientId, ReadyToUse = ready,
      IgnoreClient = ignore, Name = addonId, Icon = addonId @ ''/icon.png'',
      GetPreviousConnectionState =
        (if ready then PVR_CONNECTION_STATE_CONNECTED else PVR_CONNECTION_STATE_UNKNOWN),
      InstanceEnabledSetting = Some True\<rparr>"

definition test_heap :: "addr \<Rightarrow> CPVRClient" where
  "test_heap a =
     (if a = 0 then pvr_client ''pvr.hts'' 1 7 True False
      else if a = 1 then pvr_client ''pvr.demo'' 1 8 True False
      else if a = 2 then pvr_client ''pvr.demo'' 2 10 False False
      else pvr_client ''none'' 0 (- 2) False False)"

definition test_addons :: "AddonInfo list" where
  "test_addons =
     [\<lparr>addon_ID = ''pvr.hts'', addon_Name = ''pvr.hts'', addon_Icon = ''pvr.hts/icon.png'',
       GetKnownInstanceIds = [1], IsAddonDisabled = False\<rparr>,
      \<lparr>addon_ID = ''pvr.demo'', addon_Name = ''pvr.demo'', addon_Icon = ''pvr.demo/icon.png'',
       GetKnownInstanceIds = [1, 2], IsAddonDisabled = False\<rparr>]"

definition test_world :: world where
  "test_world =
     \<lparr>heap = test_heap, next_addr = 3, m_clientMap = [(7, 0), (8, 1), (10, 2)],
      addons = test_addons, IsPlaying = True, trace = []\<rparr>"

text \<open>
  An operation for the concrete evaluations: the client at address 0 does not implement
  it, every other client fails with a server error; its state counts the calls.
\<close>

definition test_op :: "nat PVRClientFunction" where
  "test_op client n =
     (if client = 0 then PVR_ERROR_NOT_IMPLEMENTED else PVR_ERROR_SERVER_ERROR, Suc n)"

definition ok_op :: "nat PVRClientFunction" where
  "ok_op client n = (PVR_ERROR_NO_ERROR, Suc n)"


text \<open>
  A world in which nothing is to be done: the only add-on is disabled, and the one
  registered client, of its second instance, is not ready to use.
\<close>

definition idle_world :: world where
  "idle_world =
     \<lparr>heap = test_heap, next_addr = 3, m_clientMap = [(10, 2)],
      addons = [\<lparr>addon_ID = ''pvr.demo'', addon_Name = ''pvr.demo'',
                 addon_Icon = ''pvr.demo/icon.png'', GetKnownInstanceIds = [1, 2],
                 IsAddonDisabled = True\<rparr>],
      IsPlaying = True, trace = []\<rparr>"

text \<open>
  An environment whose hash has the low 32 bits \<^verbatim>\<open>0x80000000\<close> for every string, and a world
  with one enabled add-on, nothing registered and no playback.
\<close>

definition min_env :: env where
  "min_env = test_env\<lparr>hasher := (\<lambda>s. 0x80000000), localize := (\<lambda>n. ''localized'')\<rparr>"

definition fresh_world :: world where
  "fresh_world =
     \<lparr>heap = test_heap, next_addr = 3, m_clientMap = [],
      addons = [\<lparr>addon_ID = ''pvr.hts'', addon_Name = ''pvr.hts'',
                 addon_Icon = ''pvr.hts/icon.png'', GetKnownInstanceIds = [1],
                 IsAddonDisabled = False\<rparr>],
      IsPlaying = False, trace = []\<rparr>"

definition registered_world :: world where
  "registered_world =
     \<lparr>heap = test_heap
        (3 := \<lparr>ID = ''pvr.hts'', InstanceId = 1, GetID = - 2147483648, ReadyToUse = True,
               IgnoreClient = False, Name = ''pvr.hts'', Icon = ''pvr.hts/icon.png'',
               GetPreviousConnectionState = PVR_CONNECTION_STATE_UNKNOWN,
               InstanceEnabledSetting = Some True\<rparr>),
      next_addr = 4, m_clientMap = [(- 2147483648, 3)],
      addons = [\<lparr>addon_ID = ''pvr.hts'', addon_Name = ''pvr.hts'',
                 addon_Icon = ''pvr.hts/icon.png'', GetKnownInstanceIds = [1],
                 IsAddonDisabled = False\<rparr>],
      IsPlaying = False,
      trace = [PVRManager_Stop, ProgressHandler_new ''localized'',
               UpdateProgress ''pvr.hts'' 0 1,
               Client_Create 3 (- 2147483648) ADDON_STATUS_OK,
               ProgressHandler_reset, PVRManager_Start]\<rparr>"

section \<open>Theorems\<close>

subsection \<open>Client id derivation\<close>

lemma sint_neg_32:
  fixes x :: "32 word"
  assumes "x \<noteq> 0x80000000"
  shows "sint (- x) = - sint x"
proof -
  have r: "- (2 ^ 31) \<le> sint x" "sint x < 2 ^ 31"
    using sint_ge [of x] sint_lt [of x] by simp_all
  have "sint x \<noteq> - (2 ^ 31)"
  proof
    assume "sint x = - (2 ^ 31)"
    then have "sint x = sint (0x80000000 :: 32 word)" by simp
    then have "x = 0x80000000" by (rule signed_word_eqI)
    with assms show False by simp
  qed
  with r have "- (2 ^ 31) \<le> - sint x" "- sint x < 2 ^ 31" by simp_all
  then have "signed_take_bit 31 (- sint x) = - sint x"
    by (simp add: signed_take_bit_int_eq_self)
  then show ?thesis by (simp add: sint_word_minus)
qed

lemma sint_eq_0_iff:
  fixes x :: "32 word"
  shows "sint x = 0 \<longleftrightarrow> x = 0"
proof
  assume "sint x = 0"
  then have "sint x = sint (0 :: 32 word)" by simp
  then show "x = 0" by (rule signed_word_eqI)
qed simp

lemma abs32_value:
  fixes c :: "32 word"
  shows "sint (if sint c < 0 then - c else c) =
           (if c = 0x80000000 then - 2147483648 else \<bar>sint c\<bar>)"
proof (cases "c = 0x80000000")
  case True
  then show ?thesis by simp
next
  case False
  then show ?thesis by (simp add: sint_neg_32)
qed

text \<open>
  C5. The derived client id is the absolute value of the low 32 bits of the hash read as
  a signed integer, except at the two values the negation cannot mend: the id is 0 when
  those bits are 0, and \<^verbatim>\<open>INT_MIN\<close> when they are \<^verbatim>\<open>INT_MIN\<close>. So the id is strictly
  positive exactly when the low 32 bits of the hash are neither 0 nor \<^verbatim>\<open>0x80000000\<close>; it
  is not strictly positive for every input.
\<close>

theorem ClientId_sign:
  "ClientIdFromAddonIdAndInstanceId e addonID instanceID =
     (let c = (ucast (hasher e (hash_input e addonID instanceID)) :: 32 word)
      in if c = 0 then 0 else if c = 0x80000000 then - 2147483648 else \<bar>sint c\<bar>)
   \<and> (0 < ClientIdFromAddonIdAndInstanceId e addonID instanceID \<longleftrightarrow>
        (ucast (hasher e (hash_input e addonID instanceID)) :: 32 word) \<notin> {0, 0x80000000})"
proof -
  define c where "c = (ucast (hasher e (hash_input e addonID instanceID)) :: 32 word)"
  have v: "ClientIdFromAddonIdAndInstanceId e addonID instanceID =
             (if c = 0x80000000 then - 2147483648 else \<bar>sint c\<bar>)"
    unfolding ClientIdFromAddonIdAndInstanceId_def Let_def c_def [symmetric]
    by (rule abs32_value)
  have z: "\<bar>sint c\<bar> = 0 \<longleftrightarrow> c = 0" by (simp add: sint_eq_0_iff)
  have p: "0 < \<bar>sint c\<bar> \<longleftrightarrow> c \<noteq> 0" using z by linarith
  show ?thesis
    unfolding Let_def c_def [symmetric] v using p by auto
qed

lemma ClientId_zero_example:
  "ClientIdFromAddonIdAndInstanceId (test_env\<lparr>hasher := (\<lambda>s. 0x100000000)\<rparr>) ''pvr.demo'' 1 = 0"
  by (simp add: ClientIdFromAddonIdAndInstanceId_def test_env_def)

lemma ClientId_min_example:
  "ClientIdFromAddonIdAndInstanceId (test_env\<lparr>hasher := (\<lambda>s. 0x80000000)\<rparr>) ''pvr.demo'' 1 = - 2147483648"
  by (simp add: ClientIdFromAddonIdAndInstanceId_def test_env_def)

text \<open>
  A client registered under the id 0 is not a known client: \<^verbatim>\<open>IsKnownClient\<close> takes the
  valid client ids to start at 1.
\<close>

lemma IsKnownClient_zero_key:
  assumes "find (is_client w addonId instanceId) (m_clientMap w) = Some (0, a)"
  shows "\<not> IsKnownClient w addonId instanceId"
  using assms by (simp add: IsKnownClient_def GetClientId_def is_client_def [abs_def])

text \<open>
  C1. The derived id is the hash of one string, cast and negated as the function does it,
  and nothing else enters it: for every instance id up to and including
  \<^verbatim>\<open>ADDON_FIRST_INSTANCE_ID\<close> (the first instance, and the singleton instance below it)
  the string hashed is the add-on id alone; for every greater instance id it is the
  decimal instance id, \<^verbatim>\<open>@\<close>, and the add-on id. Two environments with the same hasher and
  the same first instance constant derive the same id.
\<close>

theorem ClientId_derivation:
  "(instanceID \<le> ADDON_FIRST_INSTANCE_ID e \<longrightarrow>
      ClientIdFromAddonIdAndInstanceId e addonID instanceID =
        (let iClientId = (ucast (hasher e addonID) :: 32 word)
         in sint (if sint iClientId < 0 then - iClientId else iClientId)))
   \<and> (ADDON_FIRST_INSTANCE_ID e < instanceID \<longrightarrow>
      ClientIdFromAddonIdAndInstanceId e addonID instanceID =
        (let iClientId = (ucast (hasher e (to_string instanceID @ ''@'' @ addonID)) :: 32 word)
         in sint (if sint iClientId < 0 then - iClientId else iClientId)))
   \<and> (hasher e' = hasher e \<and> ADDON_FIRST_INSTANCE_ID e' = ADDON_FIRST_INSTANCE_ID e \<longrightarrow>
      ClientIdFromAddonIdAndInstanceId e' addonID instanceID =
      ClientIdFromAddonIdAndInstanceId e addonID instanceID)"
proof (intro conjI impI)
  assume "instanceID \<le> ADDON_FIRST_INSTANCE_ID e"
  then have "hash_input e addonID instanceID = addonID"
    by (simp add: hash_input_def not_less [symmetric])
  then show "ClientIdFromAddonIdAndInstanceId e addonID instanceID =
        (let iClientId = (ucast (hasher e addonID) :: 32 word)
         in sint (if sint iClientId < 0 then - iClientId else iClientId))"
    by (simp add: ClientIdFromAddonIdAndInstanceId_def)
next
  assume "ADDON_FIRST_INSTANCE_ID e < instanceID"
  then have "hash_input e addonID instanceID = to_string instanceID @ ''@'' @ addonID"
    by (simp add: hash_input_def)
  then show "ClientIdFromAddonIdAndInstanceId e addonID instanceID =
        (let iClientId = (ucast (hasher e (to_string instanceID @ ''@'' @ addonID)) :: 32 word)
         in sint (if sint iClientId < 0 then - iClientId else iClientId))"
    by (simp add: ClientIdFromAddonIdAndInstanceId_def)
next
  assume "hasher e' = hasher e \<and> ADDON_FIRST_INSTANCE_ID e' = ADDON_FIRST_INSTANCE_ID e"
  then show "ClientIdFromAddonIdAndInstanceId e' addonID instanceID =
      ClientIdFromAddonIdAndInstanceId e addonID instanceID"
    by (simp add: ClientIdFromAddonIdAndInstanceId_def hash_input_def)
qed

theorem ClientId_derivation_witness:
  "(0 :: AddonInstanceId) \<le> ADDON_FIRST_INSTANCE_ID test_env
   \<and> hasher test_env ''pvr.demo'' = 8
   \<and> ClientIdFromAddonIdAndInstanceId test_env ''pvr.demo'' 0 = 8
   \<and> ClientIdFromAddonIdAndInstanceId test_env ''pvr.demo'' 1 = 8
   \<and> ADDON_FIRST_INSTANCE_ID test_env < (2 :: AddonInstanceId)
   \<and> to_string 2 @ ''@'' @ ''pvr.demo'' = ''2@pvr.demo''
   \<and> hasher test_env ''2@pvr.demo'' = 10
   \<and> ClientIdFromAddonIdAndInstanceId test_env ''pvr.demo'' 2 = 10
   \<and> ClientIdFromAddonIdAndInstanceId (test_env\<lparr>PVR_INVALID_CLIENT_ID := - 1\<rparr>) ''pvr.demo'' 2 = 10"
proof -
  have s: "to_string 2 = ''2''" by code_simp
  have h: "hasher (test_env\<lparr>PVR_INVALID_CLIENT_ID := - 1\<rparr>) = hasher test_env
           \<and> ADDON_FIRST_INSTANCE_ID (test_env\<lparr>PVR_INVALID_CLIENT_ID := - 1\<rparr>)
               = ADDON_FIRST_INSTANCE_ID test_env"
    by simp
  have f0: "(0 :: AddonInstanceId) \<le> ADDON_FIRST_INSTANCE_ID test_env"
    and f1: "(1 :: AddonInstanceId) \<le> ADDON_FIRST_INSTANCE_ID test_env"
    and f2: "ADDON_FIRST_INSTANCE_ID test_env < (2 :: AddonInstanceId)"
    by (simp_all add: test_env_def)
  note i0 = ClientId_derivation [of 0 test_env "''pvr.demo''" test_env]
  note i1 = ClientId_derivation [of 1 test_env "''pvr.demo''" test_env]
  note i2 = ClientId_derivation [of 2 test_env "''pvr.demo''" "test_env\<lparr>PVR_INVALID_CLIENT_ID := - 1\<rparr>"]
  from i0 f0 have v0: "ClientIdFromAddonIdAndInstanceId test_env ''pvr.demo'' 0 = 8"
    by (simp add: test_env_def)
  from i1 f1 have v1: "ClientIdFromAddonIdAndInstanceId test_env ''pvr.demo'' 1 = 8"
    by (simp add: test_env_def)
  from i2 f2 have v2: "ClientIdFromAddonIdAndInstanceId test_env ''pvr.demo'' 2 = 10"
    by (simp add: test_env_def s)
  from i2 h v2 have v3: "ClientIdFromAddonIdAndInstanceId
      (test_env\<lparr>PVR_INVALID_CLIENT_ID := - 1\<rparr>) ''pvr.demo'' 2 = 10"
    by simp
  show ?thesis using v0 v1 v2 v3 by (simp add: test_env_def s)
qed

text \<open>
  The singleton instance id 0 is not the first instance id 1, and yet its hashed string
  carries no instance prefix.
\<close>

theorem hash_input_singleton_counterexample:
  "(0 :: AddonInstanceId) \<noteq> ADDON_FIRST_INSTANCE_ID test_env
   \<and> hash_input test_env ''pvr.demo'' 0 = ''pvr.demo''
   \<and> hash_input test_env ''pvr.demo'' 0 \<noteq> to_string 0 @ ''@'' @ ''pvr.demo''"
proof -
  have s: "to_string 0 = ''0''" by code_simp
  show ?thesis by (simp add: test_env_def hash_input_def s)
qed

subsection \<open>Registry queries\<close>

lemma narrow_small: "n < 2 ^ 31 \<Longrightarrow> narrow_int n = int n"
proof -
  assume a: "n < 2 ^ 31"
  have "(word_of_nat n :: 32 word) = word_of_int (int n)" by simp
  then have "narrow_int n = signed_take_bit 31 (int n)"
    unfolding narrow_int_def by (simp only: sint_sbintrunc') simp
  also have "\<dots> = int n"
    using a by (simp add: signed_take_bit_int_eq_self)
  finally show ?thesis .
qed

text \<open>
  C10. On a registry of fewer than \<open>2 ^ 31\<close> entries (so that the count fits the \<^verbatim>\<open>int\<close> the
  function returns), \<^verbatim>\<open>HasCreatedClients\<close> holds exactly when \<^verbatim>\<open>CreatedClientAmount\<close> is
  greater than zero: both look at the registered clients that are ready to use.
\<close>

theorem HasCreatedClients_iff_amount:
  assumes "length (m_clientMap w) < 2 ^ 31"
  shows "HasCreatedClients w \<longleftrightarrow> 0 < CreatedClientAmount w"
proof -
  let ?P = "\<lambda>client. ReadyToUse (heap w (snd client))"
  have "length (filter ?P (m_clientMap w)) \<le> length (m_clientMap w)" by simp
  with assms have "length (filter ?P (m_clientMap w)) < 2 ^ 31" by linarith
  then have "CreatedClientAmount w = int (length (filter ?P (m_clientMap w)))"
    unfolding CreatedClientAmount_def by (rule narrow_small)
  moreover have "list_ex ?P (m_clientMap w) \<longleftrightarrow> 0 < length (filter ?P (m_clientMap w))"
    by (simp add: list_ex_iff filter_empty_conv)
  ultimately show ?thesis by (simp add: HasCreatedClients_def)
qed

theorem HasCreatedClients_iff_amount_witness:
  "length (m_clientMap test_world) < 2 ^ 31
   \<and> HasCreatedClients test_world \<and> CreatedClientAmount test_world = 2
   \<and> \<not> HasCreatedClients (test_world\<lparr>m_clientMap := [(10, 2)]\<rparr>)
   \<and> CreatedClientAmount (test_world\<lparr>m_clientMap := [(10, 2)]\<rparr>) = 0"
  using HasCreatedClients_iff_amount [of test_world]
        HasCreatedClients_iff_amount [of "test_world\<lparr>m_clientMap := [(10, 2)]\<rparr>"]
  by (simp add: test_world_def test_heap_def pvr_client_def HasCreatedClients_def
        CreatedClientAmount_def narrow_int_def)

subsection \<open>Evaluation of the concrete inputs\<close>

lemma test_heap_simps:
  "test_heap 0 = pvr_client ''pvr.hts'' 1 7 True False"
  "test_heap (Suc 0) = pvr_client ''pvr.demo'' 1 8 True False"
  "test_heap 2 = pvr_client ''pvr.demo'' 2 10 False False"
  by (simp_all add: test_heap_def)

lemma test_world_simps:
  "heap test_world = test_heap"
  "m_clientMap test_world = [(7, 0), (8, 1), (10, 2)]"
  "addons test_world = test_addons"
  "IsPlaying test_world"
  "trace test_world = []"
  "next_addr test_world = 3"
  by (simp_all add: test_world_def)

lemma test_env_simps:
  "PVR_INVALID_CLIENT_ID test_env = - 2"
  "ADDON_FIRST_INSTANCE_ID test_env = 1"
  "ADDON_SINGLETON_INSTANCE_ID test_env = 0"
  "hasher test_env = (\<lambda>s. word_of_nat (length s))"
  "ReCreate test_env = (\<lambda>c. c\<lparr>ReadyToUse := True\<rparr>)"
  "Destroy test_env = (\<lambda>c. c\<lparr>ReadyToUse := False\<rparr>)"
  by (simp_all add: test_env_def)

lemma test_GetClientId:
  "GetClientId test_world ''pvr.none'' 1 = - 1"
  "GetClientId test_world ''pvr.hts'' 1 = 7"
  "GetClientId test_world ''pvr.demo'' 1 = 8"
  "GetClientId test_world ''pvr.demo'' 2 = 10"
  by (simp_all add: GetClientId_def test_world_simps test_heap_simps pvr_client_def)

lemma test_GetClient:
  "GetClient test_env test_world (- 1) = None"
  "GetClient test_env test_world 7 = Some 0"
  "GetClient test_env test_world 8 = Some 1"
  "GetClient test_env test_world 10 = Some 2"
  by (simp_all add: GetClient_def test_world_simps test_env_simps)

subsection \<open>The connection state notifier\<close>

lemma ConnectionStateChange_job:
  assumes "connection_state_switch newState (GetPreviousConnectionState (heap w c))
             = Some (iMsg, is_error, notify)"
  shows "ConnectionStateChange e (Some c) strConnectionString newState strMessage w
           = emit (AddJob \<lparr>bNotify = notify, bError = is_error, job_label = Name (heap w c),
                            job_msg = (if strMessage \<noteq> [] then strMessage else localize e iMsg),
                            job_icon = Icon (heap w c)\<rparr>) w"
  using assms by (simp add: ConnectionStateChange_def)

lemma ConnectionStateChange_default:
  assumes "connection_state_switch newState (GetPreviousConnectionState (heap w c)) = None"
  shows "ConnectionStateChange e (Some c) strConnectionString newState strMessage w
           = emit (Log_ERROR UnknownConnectionState) w"
  using assms by (simp add: ConnectionStateChange_def)

text \<open>
  C7. For a client that is there: a change to \<^verbatim>\<open>SERVER_UNREACHABLE\<close> or \<^verbatim>\<open>CONNECTED\<close> after
  the previous state \<^verbatim>\<open>UNKNOWN\<close> or \<^verbatim>\<open>CONNECTING\<close>, and every change to \<^verbatim>\<open>CONNECTING\<close>,
  queues one event log job whose notify flag is off (the event is logged, the user is not
  notified); a change to \<^verbatim>\<open>SERVER_UNREACHABLE\<close> after \<^verbatim>\<open>CONNECTED\<close> queues a job with the
  notify flag and the error flag on; a new state the \<^verbatim>\<open>switch\<close> does not know (\<^verbatim>\<open>UNKNOWN\<close>
  itself, or a value outside the enumeration) writes one error to the log and queues no
  job at all.
\<close>

theorem ConnectionStateChange_notification:
  "(newState \<in> {PVR_CONNECTION_STATE_SERVER_UNREACHABLE, PVR_CONNECTION_STATE_CONNECTED}
      \<and> GetPreviousConnectionState (heap w c)
            \<in> {PVR_CONNECTION_STATE_UNKNOWN, PVR_CONNECTION_STATE_CONNECTING}
      \<or> newState = PVR_CONNECTION_STATE_CONNECTING
    \<longrightarrow> (\<exists>job. ConnectionStateChange e (Some c) strConnectionString newState strMessage w
                  = emit (AddJob job) w \<and> \<not> bNotify job))
   \<and> (GetPreviousConnectionState (heap w c) = PVR_CONNECTION_STATE_CONNECTED
    \<longrightarrow> (\<exists>job. ConnectionStateChange e (Some c) strConnectionString
                    PVR_CONNECTION_STATE_SERVER_UNREACHABLE strMessage w
                  = emit (AddJob job) w \<and> bNotify job \<and> bError job))
   \<and> (newState = PVR_CONNECTION_STATE_UNKNOWN \<or> newState = PVR_CONNECTION_STATE_OTHER n
    \<longrightarrow> ConnectionStateChange e (Some c) strConnectionString newState strMessage w
          = emit (Log_ERROR UnknownConnectionState) w)"
proof (intro conjI impI)
  assume a: "newState \<in> {PVR_CONNECTION_STATE_SERVER_UNREACHABLE, PVR_CONNECTION_STATE_CONNECTED}
      \<and> GetPreviousConnectionState (heap w c)
            \<in> {PVR_CONNECTION_STATE_UNKNOWN, PVR_CONNECTION_STATE_CONNECTING}
      \<or> newState = PVR_CONNECTION_STATE_CONNECTING"
  then have "\<exists>iMsg is_error.
      connection_state_switch newState (GetPreviousConnectionState (heap w c))
        = Some (iMsg, is_error, False)"
    by (auto simp: first_notification_def)
  then obtain iMsg is_error where
    "connection_state_switch newState (GetPreviousConnectionState (heap w c))
        = Some (iMsg, is_error, False)" by blast
  note job = ConnectionStateChange_job [OF this, of e strConnectionString strMessage]
  let ?job = "\<lparr>bNotify = False, bError = is_error, job_label = Name (heap w c),
               job_msg = (if strMessage \<noteq> [] then strMessage else localize e iMsg),
               job_icon = Icon (heap w c)\<rparr>"
  have "\<not> bNotify ?job" by simp
  with job show "\<exists>job. ConnectionStateChange e (Some c) strConnectionString newState strMessage w
                  = emit (AddJob job) w \<and> \<not> bNotify job"
    by blast
next
  assume "GetPreviousConnectionState (heap w c) = PVR_CONNECTION_STATE_CONNECTED"
  then have "connection_state_switch PVR_CONNECTION_STATE_SERVER_UNREACHABLE
               (GetPreviousConnectionState (heap w c)) = Some (35505, True, True)"
    by (simp add: first_notification_def)
  note job = ConnectionStateChange_job [OF this, of e strConnectionString strMessage]
  let ?job = "\<lparr>bNotify = True, bError = True, job_label = Name (heap w c),
               job_msg = (if strMessage \<noteq> [] then strMessage else localize e 35505),
               job_icon = Icon (heap w c)\<rparr>"
  have "bNotify ?job \<and> bError ?job" by simp
  with job show "\<exists>job. ConnectionStateChange e (Some c) strConnectionString
                    PVR_CONNECTION_STATE_SERVER_UNREACHABLE strMessage w
                  = emit (AddJob job) w \<and> bNotify job \<and> bError job"
    by blast
next
  assume "newState = PVR_CONNECTION_STATE_UNKNOWN \<or> newState = PVR_CONNECTION_STATE_OTHER n"
  then have "connection_state_switch newState (GetPreviousConnectionState (heap w c)) = None"
    by auto
  then show "ConnectionStateChange e (Some c) strConnectionString newState strMessage w
          = emit (Log_ERROR UnknownConnectionState) w"
    by (rule ConnectionStateChange_default)
qed


theorem ConnectionStateChange_notification_witness:
  "GetPreviousConnectionState (heap test_world 2) = PVR_CONNECTION_STATE_UNKNOWN
   \<and> ConnectionStateChange test_env (Some 2) ''host'' PVR_CONNECTION_STATE_SERVER_UNREACHABLE
         ''down'' test_world
       = emit (AddJob \<lparr>bNotify = False, bError = True, job_label = ''pvr.demo'',
                        job_msg = ''down'', job_icon = ''pvr.demo/icon.png''\<rparr>) test_world
   \<and> GetPreviousConnectionState (heap test_world 1) = PVR_CONNECTION_STATE_CONNECTED
   \<and> ConnectionStateChange test_env (Some 1) ''host'' PVR_CONNECTION_STATE_SERVER_UNREACHABLE
         ''down'' test_world
       = emit (AddJob \<lparr>bNotify = True, bError = True, job_label = ''pvr.demo'',
                        job_msg = ''down'', job_icon = ''pvr.demo/icon.png''\<rparr>) test_world
   \<and> ConnectionStateChange test_env (Some 1) ''host'' PVR_CONNECTION_STATE_UNKNOWN
         ''down'' test_world
       = emit (Log_ERROR UnknownConnectionState) test_world"
  using ConnectionStateChange_notification [of PVR_CONNECTION_STATE_SERVER_UNREACHABLE
          test_world 2 test_env "''host''" "''down''" 0]
        ConnectionStateChange_notification [of PVR_CONNECTION_STATE_UNKNOWN
          test_world 1 test_env "''host''" "''down''" 0]
  by (simp add: ConnectionStateChange_def first_notification_def test_world_simps
        test_heap_simps pvr_client_def)

subsection \<open>Stopping a client\<close>

lemma trace_emit: "trace (emit ev w) = trace w @ [ev]"
  by (simp add: emit_def)

lemma emit_fields [simp]:
  "heap (emit ev w) = heap w" "m_clientMap (emit ev w) = m_clientMap w"
  "addons (emit ev w) = addons w" "IsPlaying (emit ev w) = IsPlaying w"
  "next_addr (emit ev w) = next_addr w"
  by (simp_all add: emit_def)

lemma stop_playback_fields [simp]:
  "heap (stop_playback_if_needed w) = heap w"
  "m_clientMap (stop_playback_if_needed w) = m_clientMap w"
  "addons (stop_playback_if_needed w) = addons w"
  "next_addr (stop_playback_if_needed w) = next_addr w"
  by (simp_all add: stop_playback_if_needed_def SendMsg_MEDIA_STOP_def)

lemma stop_playback_trace:
  "trace (stop_playback_if_needed w) =
     trace w @ (if IsPlaying w then [SendMsg_TMSG_MEDIA_STOP] else [])"
  by (simp add: stop_playback_if_needed_def SendMsg_MEDIA_STOP_def trace_emit)

lemma GetClientId_stop_playback [simp]:
  "GetClientId (stop_playback_if_needed w) addonId instanceId = GetClientId w addonId instanceId"
  by (simp add: GetClientId_def)

lemma GetClient_stop_playback [simp]:
  "GetClient e (stop_playback_if_needed w) iId = GetClient e w iId"
  by (simp add: GetClient_def)

lemma map_erase_distinct:
  "distinct (map fst m) \<Longrightarrow> map_erase k m = filter (\<lambda>entry. fst entry \<noteq> k) m"
proof (induction m)
  case Nil
  then show ?case by simp
next
  case (Cons entry m)
  show ?case
  proof (cases "fst entry = k")
    case True
    with Cons.prems have "k \<notin> fst ` set m" by simp
    then have "filter (\<lambda>entry. fst entry \<noteq> k) m = m"
      by (intro filter_True) auto
    with True show ?thesis by simp
  next
    case False
    with Cons show ?thesis by simp
  qed
qed

lemma GetClientId_found:
  assumes "find (is_client w addonId instanceId) (m_clientMap w) = Some (k, a)"
  shows "GetClientId w addonId instanceId = k"
  using assms by (simp add: GetClientId_def is_client_def [abs_def])

lemma GetClientId_not_found:
  assumes "find (is_client w addonId instanceId) (m_clientMap w) = None"
  shows "GetClientId w addonId instanceId = - 1"
  using assms by (simp add: GetClientId_def is_client_def [abs_def])

lemma GetClient_entry:
  assumes "distinct (map fst (m_clientMap w))" "(k, a) \<in> set (m_clientMap w)"
    "PVR_INVALID_CLIENT_ID e < k"
  shows "GetClient e w k = Some a"
  using assms by (simp add: GetClient_def)

lemma GetClient_no_key:
  assumes "k \<notin> fst ` set (m_clientMap w)"
  shows "GetClient e w k = None"
  using assms by (simp add: GetClient_def map_of_eq_None_iff)


lemma client_method_fields [simp]:
  "m_clientMap (client_ReCreate e a w) = m_clientMap w"
  "m_clientMap (client_Destroy e a w) = m_clientMap w"
  "trace (client_ReCreate e a w) = trace w @ [Client_ReCreate a]"
  "trace (client_Destroy e a w) = trace w @ [Client_Destroy a]"
  "heap (client_ReCreate e a w) = (heap w)(a := ReCreate e (heap w a))"
  "heap (client_Destroy e a w) = (heap w)(a := Destroy e (heap w a))"
  by (simp_all add: client_ReCreate_def client_Destroy_def trace_emit)

lemma StopClient_found:
  assumes "GetClient e w (GetClientId w addonId instanceId) = Some a"
  shows "StopClient e addonId instanceId bRestart w =
           (if bRestart then (True, client_ReCreate e a (stop_playback_if_needed w))
            else (True, client_Destroy e a
                    ((stop_playback_if_needed w)
                       \<lparr>m_clientMap := map_erase (GetClientId w addonId instanceId) (m_clientMap w)\<rparr>)))"
  using assms by (simp add: StopClient_def Let_def)

lemma StopClient_not_found:
  assumes "GetClient e w (GetClientId w addonId instanceId) = None"
  shows "StopClient e addonId instanceId bRestart w = (False, stop_playback_if_needed w)"
  using assms by (simp add: StopClient_def Let_def)

text \<open>
  On a registry whose keys are distinct (it is a \<^verbatim>\<open>std::map\<close>) and valid client ids
  (above \<^verbatim>\<open>PVR_INVALID_CLIENT_ID\<close>, and not the \<open>-1\<close> that \<^verbatim>\<open>GetClientId\<close> returns when it
  finds nothing): when a client of the add-on and instance is registered, \<^verbatim>\<open>StopClient\<close>
  returns true; with \<^verbatim>\<open>bRestart\<close> the client behind the entry is recreated and the
  registry is the same map as before, without it the entry is erased from the registry
  and the client is destroyed. When no such client is registered, the call returns false
  and leaves the registry (and every client object) as it was; only playback is stopped
  when it was active.
\<close>

theorem StopClient_registry:
  assumes d: "distinct (map fst (m_clientMap w))"
    and valid: "\<forall>k\<in>fst ` set (m_clientMap w). PVR_INVALID_CLIENT_ID e < k \<and> k \<noteq> - 1"
  shows "((\<exists>entry\<in>set (m_clientMap w). is_client w addonId instanceId entry) \<longrightarrow>
            (\<exists>k a. (k, a) \<in> set (m_clientMap w) \<and> is_client w addonId instanceId (k, a)
               \<and> StopClient e addonId instanceId True w
                   = (True, client_ReCreate e a (stop_playback_if_needed w))
               \<and> m_clientMap (snd (StopClient e addonId instanceId True w)) = m_clientMap w
               \<and> StopClient e addonId instanceId False w
                   = (True, client_Destroy e a
                        ((stop_playback_if_needed w)
                           \<lparr>m_clientMap := filter (\<lambda>entry. fst entry \<noteq> k) (m_clientMap w)\<rparr>))
               \<and> m_clientMap (snd (StopClient e addonId instanceId False w))
                   = filter (\<lambda>entry. fst entry \<noteq> k) (m_clientMap w)
               \<and> map_of (m_clientMap (snd (StopClient e addonId instanceId False w))) k = None))
       \<and> ((\<forall>entry\<in>set (m_clientMap w). \<not> is_client w addonId instanceId entry) \<longrightarrow>
            StopClient e addonId instanceId bRestart w = (False, stop_playback_if_needed w)
            \<and> m_clientMap (snd (StopClient e addonId instanceId bRestart w)) = m_clientMap w)"
proof (intro conjI impI)
  assume "\<exists>entry\<in>set (m_clientMap w). is_client w addonId instanceId entry"
  then obtain entry where
    f: "find (is_client w addonId instanceId) (m_clientMap w) = Some entry"
    by (cases "find (is_client w addonId instanceId) (m_clientMap w)")
       (auto simp: find_None_iff)
  obtain k a where ka: "entry = (k, a)" by (cases entry)
  from f ka have mem: "(k, a) \<in> set (m_clientMap w)" and isc: "is_client w addonId instanceId (k, a)"
    by (auto simp: find_Some_iff in_set_conv_nth)
  from f ka have id: "GetClientId w addonId instanceId = k"
    by (simp add: GetClientId_found)
  from mem valid have "PVR_INVALID_CLIENT_ID e < k" by force
  with d mem have "GetClient e w k = Some a" by (rule GetClient_entry)
  with id have g: "GetClient e w (GetClientId w addonId instanceId) = Some a" by simp
  have er: "map_erase k (m_clientMap w) = filter (\<lambda>entry. fst entry \<noteq> k) (m_clientMap w)"
    using d by (rule map_erase_distinct)
  have gone: "map_of (filter (\<lambda>entry. fst entry \<noteq> k) (m_clientMap w)) k = None"
    by (auto simp: map_of_eq_None_iff)
  have t: "StopClient e addonId instanceId True w
             = (True, client_ReCreate e a (stop_playback_if_needed w))"
    using StopClient_found [OF g, of True] by simp
  have fl: "StopClient e addonId instanceId False w
             = (True, client_Destroy e a
                  ((stop_playback_if_needed w)
                     \<lparr>m_clientMap := filter (\<lambda>entry. fst entry \<noteq> k) (m_clientMap w)\<rparr>))"
    using StopClient_found [OF g, of False] by (simp add: id er)
  show "\<exists>k a. (k, a) \<in> set (m_clientMap w) \<and> is_client w addonId instanceId (k, a)
               \<and> StopClient e addonId instanceId True w
                   = (True, client_ReCreate e a (stop_playback_if_needed w))
               \<and> m_clientMap (snd (StopClient e addonId instanceId True w)) = m_clientMap w
               \<and> StopClient e addonId instanceId False w
                   = (True, client_Destroy e a
                        ((stop_playback_if_needed w)
                           \<lparr>m_clientMap := filter (\<lambda>entry. fst entry \<noteq> k) (m_clientMap w)\<rparr>))
               \<and> m_clientMap (snd (StopClient e addonId instanceId False w))
                   = filter (\<lambda>entry. fst entry \<noteq> k) (m_clientMap w)
               \<and> map_of (m_clientMap (snd (StopClient e addonId instanceId False w))) k = None"
  proof (intro exI conjI)
    show "(k, a) \<in> set (m_clientMap w)" by (rule mem)
    show "is_client w addonId instanceId (k, a)" by (rule isc)
    show "StopClient e addonId instanceId True w
            = (True, client_ReCreate e a (stop_playback_if_needed w))" by (rule t)
    show "m_clientMap (snd (StopClient e addonId instanceId True w)) = m_clientMap w"
      by (simp add: t)
    show "StopClient e addonId instanceId False w
            = (True, client_Destroy e a
                 ((stop_playback_if_needed w)
                    \<lparr>m_clientMap := filter (\<lambda>entry. fst entry \<noteq> k) (m_clientMap w)\<rparr>))"
      by (rule fl)
    show "m_clientMap (snd (StopClient e addonId instanceId False w))
            = filter (\<lambda>entry. fst entry \<noteq> k) (m_clientMap w)"
      by (simp add: fl)
    show "map_of (m_clientMap (snd (StopClient e addonId instanceId False w))) k = None"
      by (simp add: fl gone)
  qed
next
  assume none: "\<forall>entry\<in>set (m_clientMap w). \<not> is_client w addonId instanceId entry"
  then have "find (is_client w addonId instanceId) (m_clientMap w) = None"
    by (simp add: find_None_iff)
  then have id: "GetClientId w addonId instanceId = - 1" by (rule GetClientId_not_found)
  have "(- 1 :: int) \<notin> fst ` set (m_clientMap w)" using valid by force
  then have "GetClient e w (- 1) = None" by (rule GetClient_no_key)
  with id have g: "GetClient e w (GetClientId w addonId instanceId) = None" by simp
  have r: "StopClient e addonId instanceId bRestart w = (False, stop_playback_if_needed w)"
    using g by (rule StopClient_not_found)
  then show "StopClient e addonId instanceId bRestart w = (False, stop_playback_if_needed w)" .
  show "m_clientMap (snd (StopClient e addonId instanceId bRestart w)) = m_clientMap w"
    by (simp add: r)
qed

theorem StopClient_registry_witness:
  "m_clientMap test_world = [(7, 0), (8, 1), (10, 2)]
   \<and> PVR_INVALID_CLIENT_ID test_env = - 2
   \<and> is_client test_world ''pvr.demo'' 2 (10, 2)
   \<and> fst (StopClient test_env ''pvr.demo'' 2 True test_world)
   \<and> m_clientMap (snd (StopClient test_env ''pvr.demo'' 2 True test_world))
        = [(7, 0), (8, 1), (10, 2)]
   \<and> trace (snd (StopClient test_env ''pvr.demo'' 2 True test_world))
        = [SendMsg_TMSG_MEDIA_STOP, Client_ReCreate 2]
   \<and> fst (StopClient test_env ''pvr.demo'' 2 False test_world)
   \<and> m_clientMap (snd (StopClient test_env ''pvr.demo'' 2 False test_world)) = [(7, 0), (8, 1)]
   \<and> trace (snd (StopClient test_env ''pvr.demo'' 2 False test_world))
        = [SendMsg_TMSG_MEDIA_STOP, Client_Destroy 2]
   \<and> \<not> fst (StopClient test_env ''pvr.none'' 1 False test_world)
   \<and> m_clientMap (snd (StopClient test_env ''pvr.none'' 1 False test_world))
        = [(7, 0), (8, 1), (10, 2)]"
proof -
  have d: "distinct (map fst (m_clientMap test_world))"
    and valid: "\<forall>k\<in>fst ` set (m_clientMap test_world).
                  PVR_INVALID_CLIENT_ID test_env < k \<and> k \<noteq> - 1"
    by (simp_all add: test_world_simps test_env_simps)
  note inst = StopClient_registry [OF d valid]
  have reg: "\<exists>entry\<in>set (m_clientMap test_world). is_client test_world ''pvr.demo'' 2 entry"
    by (simp add: is_client_def test_world_simps test_heap_simps pvr_client_def)
  have unreg: "\<forall>entry\<in>set (m_clientMap test_world). \<not> is_client test_world ''pvr.none'' 1 entry"
    by (simp add: is_client_def test_world_simps test_heap_simps pvr_client_def)
  from inst [of "''pvr.demo''" 2 False] reg obtain k a where
    mem: "(k, a) \<in> set (m_clientMap test_world)"
    and isc: "is_client test_world ''pvr.demo'' 2 (k, a)"
    and t: "StopClient test_env ''pvr.demo'' 2 True test_world
              = (True, client_ReCreate test_env a (stop_playback_if_needed test_world))"
    and f: "StopClient test_env ''pvr.demo'' 2 False test_world
              = (True, client_Destroy test_env a
                   ((stop_playback_if_needed test_world)
                      \<lparr>m_clientMap := filter (\<lambda>entry. fst entry \<noteq> k) (m_clientMap test_world)\<rparr>))"
    by blast
  from mem isc have ka: "k = 10 \<and> a = 2"
    by (auto simp: is_client_def test_world_simps test_heap_simps pvr_client_def)
  from inst [of "''pvr.none''" 1 False] unreg
  have n: "StopClient test_env ''pvr.none'' 1 False test_world
             = (False, stop_playback_if_needed test_world)"
    by blast
  show ?thesis
    using ka
    by (simp add: t f n is_client_def test_world_simps test_heap_simps pvr_client_def
          test_env_simps stop_playback_trace)
qed

lemma min_env_simps:
  "hasher min_env = (\<lambda>s. 0x80000000)"
  "ADDON_SINGLETON_INSTANCE_ID min_env = 0"
  "ADDON_FIRST_INSTANCE_ID min_env = 1"
  "PVR_INVALID_CLIENT_ID min_env = - 2"
  "localize min_env = (\<lambda>n. ''localized'')"
  "construct min_env = (\<lambda>addon instanceId.
        \<lparr>ID = addon_ID addon, InstanceId = instanceId, GetID = - 2, ReadyToUse = False,
         IgnoreClient = False, Name = addon_Name addon, Icon = addon_Icon addon,
         GetPreviousConnectionState = PVR_CONNECTION_STATE_UNKNOWN,
         InstanceEnabledSetting = Some True\<rparr>)"
  "Create min_env = (\<lambda>c iClientId. (ADDON_STATUS_OK, c\<lparr>GetID := iClientId, ReadyToUse := True\<rparr>))"
  by (simp_all add: min_env_def test_env_def)

lemma min_ClientId:
  "ClientIdFromAddonIdAndInstanceId min_env ''pvr.hts'' 1 = - 2147483648"
  by (simp add: ClientIdFromAddonIdAndInstanceId_def min_env_simps)

lemma fresh_world_simps':
  "heap fresh_world = test_heap" "next_addr fresh_world = 3" "m_clientMap fresh_world = []"
  "addons fresh_world = [\<lparr>addon_ID = ''pvr.hts'', addon_Name = ''pvr.hts'',
                 addon_Icon = ''pvr.hts/icon.png'', GetKnownInstanceIds = [1],
                 IsAddonDisabled = False\<rparr>]"
  by (simp_all add: fresh_world_def)

lemma fresh_classify:
  "computed_actions min_env [] 0 fresh_world =
     Some (fresh_world\<lparr>heap := test_heap(3 := construct min_env (hd (addons fresh_world)) 1),
                        next_addr := 4\<rparr>,
           \<lparr>addonsToCreate = [(Some 3, - 2147483648)], addonsToReCreate = [],
            addonsToDestroy = []\<rparr>)"
  by (simp add: computed_actions_def GetAddonInfos_def fresh_world_simps' instanceIdsWithStatus_def
        classify_instance_def IsKnownClient_def IsCreatedClient_def GetClientId_def
        make_shared_def GetSettingBool_def min_ClientId min_env_simps no_actions_def Let_def)

lemma fresh_world_simps:
  "heap fresh_world = test_heap" "next_addr fresh_world = 3" "m_clientMap fresh_world = []"
  "trace fresh_world = []" "IsPlaying fresh_world = False"
  "addons fresh_world = [\<lparr>addon_ID = ''pvr.hts'', addon_Name = ''pvr.hts'',
                 addon_Icon = ''pvr.hts/icon.png'', GetKnownInstanceIds = [1],
                 IsAddonDisabled = False\<rparr>]"
  by (simp_all add: fresh_world_def)

lemma fresh_apply:
  "apply_actions min_env
     \<lparr>addonsToCreate = [(Some 3, - 2147483648)], addonsToReCreate = [], addonsToDestroy = []\<rparr>
     (fresh_world\<lparr>heap := test_heap(3 := construct min_env (hd (addons fresh_world)) 1),
                  next_addr := 4\<rparr>)
   = Some registered_world"
proof -
  have "apply_actions min_env
     \<lparr>addonsToCreate = [(Some 3, - 2147483648)], addonsToReCreate = [], addonsToDestroy = []\<rparr>
     (fresh_world\<lparr>heap := test_heap(3 := construct min_env (hd (addons fresh_world)) 1),
                  next_addr := 4\<rparr>)
   = Some (fresh_world\<lparr>heap := test_heap
        (3 := \<lparr>ID = ''pvr.hts'', InstanceId = 1, GetID = - 2147483648, ReadyToUse = True,
               IgnoreClient = False, Name = ''pvr.hts'', Icon = ''pvr.hts/icon.png'',
               GetPreviousConnectionState = PVR_CONNECTION_STATE_UNKNOWN,
               InstanceEnabledSetting = Some True\<rparr>),
      next_addr := 4, m_clientMap := [(- 2147483648, 3)],
      trace := [PVRManager_Stop, ProgressHandler_new ''localized'',
               UpdateProgress ''pvr.hts'' 0 1,
               Client_Create 3 (- 2147483648) ADDON_STATUS_OK,
               ProgressHandler_reset, PVRManager_Start]\<rparr>)"
    by (simp add: apply_actions_def Let_def client_Create_def emit_def min_env_simps fresh_world_simps)
  also have "\<dots> = Some registered_world"
    by (simp add: fresh_world_def registered_world_def)
  finally show ?thesis .
qed

lemma fresh_UpdateAddons:
  "UpdateAddons min_env [] 0 fresh_world = Some registered_world"
proof -
  have c: "classify_addons min_env [] 0
             (map (\<lambda>addon. (addon, \<not> IsAddonDisabled addon)) (GetAddonInfos fresh_world False))
             (fresh_world, no_actions) =
     Some (fresh_world\<lparr>heap := test_heap(3 := construct min_env (hd (addons fresh_world)) 1),
                        next_addr := 4\<rparr>,
           \<lparr>addonsToCreate = [(Some 3, - 2147483648)], addonsToReCreate = [],
            addonsToDestroy = []\<rparr>)"
    using fresh_classify by (simp add: computed_actions_def)
  have n: "GetAddonInfos fresh_world False \<noteq> []"
    by (simp add: GetAddonInfos_def fresh_world_simps)
  have "UpdateAddons min_env [] 0 fresh_world =
      apply_actions min_env
     \<lparr>addonsToCreate = [(Some 3, - 2147483648)], addonsToReCreate = [], addonsToDestroy = []\<rparr>
     (fresh_world\<lparr>heap := test_heap(3 := construct min_env (hd (addons fresh_world)) 1),
                  next_addr := 4\<rparr>)"
    unfolding UpdateAddons_def Let_def by (simp add: n c)
  then show ?thesis by (simp only: fresh_apply)
qed

lemma registered_world_simps:
  "m_clientMap registered_world = [(- 2147483648, 3)]"
  "IsPlaying registered_world = False"
  "ID (heap registered_world 3) = ''pvr.hts''"
  "InstanceId (heap registered_world 3) = 1"
  "ReadyToUse (heap registered_world 3)"
  by (simp_all add: registered_world_def)

text \<open>
  C6. The registry can hold a key that is not a valid client id: for an add-on whose hash
  has the low 32 bits \<^verbatim>\<open>0x80000000\<close> the derived id is \<^verbatim>\<open>INT_MIN\<close>, and \<^verbatim>\<open>UpdateAddons\<close>
  creates the client and registers it under that id. \<^verbatim>\<open>StopClient\<close> for the add-on and
  instance then finds the id, \<^verbatim>\<open>GetClient\<close> refuses it as not above
  \<^verbatim>\<open>PVR_INVALID_CLIENT_ID\<close>, and the call returns false and changes nothing, with and
  without \<^verbatim>\<open>bRestart\<close>: the client is registered, and is neither recreated nor removed.
\<close>

theorem StopClient_invalid_key:
  "UpdateAddons min_env [] 0 fresh_world = Some registered_world
   \<and> m_clientMap registered_world = [(- 2147483648, 3)]
   \<and> is_client registered_world ''pvr.hts'' 1 (- 2147483648, 3)
   \<and> StopClient min_env ''pvr.hts'' 1 False registered_world = (False, registered_world)
   \<and> StopClient min_env ''pvr.hts'' 1 True registered_world = (False, registered_world)"
proof -
  have i: "GetClientId registered_world ''pvr.hts'' 1 = - 2147483648"
    by (simp add: GetClientId_def registered_world_simps)
  have g: "GetClient min_env registered_world (GetClientId registered_world ''pvr.hts'' 1) = None"
    by (simp add: i GetClient_def min_env_simps)
  have p: "stop_playback_if_needed registered_world = registered_world"
    by (simp add: stop_playback_if_needed_def registered_world_simps)
  show ?thesis
    using StopClient_not_found [OF g] fresh_UpdateAddons
    by (simp add: p is_client_def registered_world_simps)
qed

theorem StopClient_invalid_key_witness:
  "\<not> fst (StopClient min_env ''pvr.hts'' 1 False registered_world)
   \<and> m_clientMap (snd (StopClient min_env ''pvr.hts'' 1 False registered_world))
       = [(- 2147483648, 3)]
   \<and> trace (snd (StopClient min_env ''pvr.hts'' 1 True registered_world))
       = trace registered_world"
  using StopClient_invalid_key by (simp add: registered_world_simps)

text \<open>
  C9. When playback is active, every call of \<^verbatim>\<open>StopClient\<close> sends the stop message first,
  whatever the lookup of the client gives afterwards: also the call that returns false
  because no such client is registered.
\<close>

theorem StopClient_stops_playback:
  assumes "IsPlaying w"
  shows "trace (snd (StopClient e addonId instanceId bRestart w))
           = trace w @ SendMsg_TMSG_MEDIA_STOP #
               (case GetClient e w (GetClientId w addonId instanceId) of
                  None \<Rightarrow> []
                | Some a \<Rightarrow> [if bRestart then Client_ReCreate a else Client_Destroy a])
         \<and> (fst (StopClient e addonId instanceId bRestart w)
               \<longleftrightarrow> GetClient e w (GetClientId w addonId instanceId) \<noteq> None)"
proof (cases "GetClient e w (GetClientId w addonId instanceId)")
  case None
  from StopClient_not_found [OF None, of bRestart] assms show ?thesis
    by (simp add: None stop_playback_trace)
next
  case (Some a)
  from StopClient_found [OF Some, of bRestart] assms show ?thesis
    by (simp add: Some stop_playback_trace)
qed

theorem StopClient_stops_playback_witness:
  "IsPlaying test_world
   \<and> StopClient test_env ''pvr.none'' 1 False test_world = (False, SendMsg_MEDIA_STOP test_world)
   \<and> trace (snd (StopClient test_env ''pvr.none'' 1 False test_world)) = [SendMsg_TMSG_MEDIA_STOP]
   \<and> trace (snd (StopClient test_env ''pvr.hts'' 1 True test_world))
        = [SendMsg_TMSG_MEDIA_STOP, Client_ReCreate 0]"
  using StopClient_stops_playback [of test_world test_env "''pvr.none''" 1 False]
        StopClient_stops_playback [of test_world test_env "''pvr.hts''" 1 True]
  by (simp add: StopClient_not_found test_GetClientId test_GetClient test_world_simps
        stop_playback_if_needed_def)

subsection \<open>Fan-out over clients\<close>

lemma world_trace_same [simp]: "w\<lparr>trace := trace w @ []\<rparr> = w"
  by simp

lemma emit_as_update: "emit ev w = w\<lparr>trace := trace w @ [ev]\<rparr>"
  by (simp add: emit_def)

lemma new_events_update [simp]: "new_events w (w\<lparr>trace := trace w @ evs\<rparr>) = evs"
  by (simp add: new_events_def)

lemma calls_append: "calls (xs @ ys) = calls xs @ calls ys"
  by (induction xs rule: calls.induct) simp_all

lemma logs_append: "logs (xs @ ys) = logs xs @ logs ys"
  by (simp add: logs_def)

lemma last_error_Nil [simp]: "last_error none [] = none"
  by (simp add: last_error_def)

lemma last_error_Cons:
  "last_error none (r # rs) = last_error (if is_failure r then r else none) rs"
  by (cases "filter is_failure rs") (simp_all add: last_error_def)

lemma is_log_client_warning [simp]: "is_log (client_warning fn c)"
  by (simp add: client_warning_def)

lemma calls_client_warning [simp]: "calls (client_warning fn c # evs) = calls evs"
  by (simp add: client_warning_def)

lemma ForCreatedClients_loop_step:
  assumes "f (snd clientEntry) s = (r, s1)"
  shows "ForCreatedClients_loop f (clientEntry # clients) (le, fl, s, w) =
           ForCreatedClients_loop f clients
             (if is_failure r then r else le,
              if is_failure r then fl @ [fst clientEntry] else fl,
              s1, emit (Call_function (snd clientEntry) r) w)"
  using assms by (simp add: is_failure_def Let_def)

lemma ForClients_loop_skip:
  assumes "GetID (heap w client) \<in> set fl"
  shows "ForClients_loop fn f (client # clients) (le, fl, s, w) =
           ForClients_loop fn f clients
             (le, fl, s, emit (client_warning fn (heap w client)) w)"
  using assms by (auto simp: list_all_iff LogClientWarning_def)

lemma ForClients_loop_call:
  assumes "GetID (heap w client) \<notin> set fl" "f client s = (r, s1)"
  shows "ForClients_loop fn f (client # clients) (le, fl, s, w) =
           ForClients_loop fn f clients
             (if is_failure r then r else le,
              if is_failure r then fl @ [GetID (heap w client)] else fl,
              s1, emit (Call_function client r) w)"
proof -
  from assms(1) have "list_all (\<lambda>failedClientId. failedClientId \<noteq> GetID (heap w client)) fl"
    by (auto simp: list_all_iff)
  with assms(2) show ?thesis by (simp add: is_failure_def Let_def)
qed

lemma ForCreatedClients_loop_post:
  "ForCreatedClients_loop f clients (le, fl, s, w) = (le', fl', s', w') \<Longrightarrow>
     \<exists>evs. w' = w\<lparr>trace := trace w @ evs\<rparr>
       \<and> map fst (calls evs) = map snd clients
       \<and> logs evs = []
       \<and> le' = last_error le (map snd (calls evs))
       \<and> fl' = fl @ map fst (filter (is_failure \<circ> snd)
                              (zip (map fst clients) (map snd (calls evs))))"
proof (induction clients arbitrary: le fl s w)
  case Nil
  then have "w' = w\<lparr>trace := trace w @ []\<rparr>" "le' = le" "fl' = fl" by simp_all
  then show ?case by (intro exI [of _ "[]"]) (simp add: logs_def)
next
  case (Cons clientEntry clients)
  obtain r s1 where fr: "f (snd clientEntry) s = (r, s1)" by (cases "f (snd clientEntry) s")
  let ?ev = "Call_function (snd clientEntry) r"
  let ?le1 = "if is_failure r then r else le"
  let ?fl1 = "if is_failure r then fl @ [fst clientEntry] else fl"
  from Cons.prems have
    "ForCreatedClients_loop f clients (?le1, ?fl1, s1, emit ?ev w) = (le', fl', s', w')"
    by (simp only: ForCreatedClients_loop_step [of f clientEntry s r s1, OF fr])
  from Cons.IH [OF this] obtain evs where
    w': "w' = (emit ?ev w)\<lparr>trace := trace (emit ?ev w) @ evs\<rparr>"
    and c: "map fst (calls evs) = map snd clients"
    and l: "logs evs = []"
    and le': "le' = last_error ?le1 (map snd (calls evs))"
    and fl': "fl' = ?fl1 @ map fst (filter (is_failure \<circ> snd)
                                   (zip (map fst clients) (map snd (calls evs))))"
    by blast
  have "w' = w\<lparr>trace := trace w @ ?ev # evs\<rparr>" using w' by (simp add: emit_def)
  moreover have "map fst (calls (?ev # evs)) = map snd (clientEntry # clients)" using c by simp
  moreover have "logs (?ev # evs) = []" using l by (simp add: logs_def)
  moreover have "le' = last_error le (map snd (calls (?ev # evs)))"
    using le' by (simp add: last_error_Cons)
  moreover have "fl' = fl @ map fst (filter (is_failure \<circ> snd)
        (zip (map fst (clientEntry # clients)) (map snd (calls (?ev # evs)))))"
    using fl' by simp
  ultimately show ?case by blast
qed

lemma ForClients_loop_post:
  "ForClients_loop fn f clients (le, fl, s, w) = (le', fl', s', w') \<Longrightarrow>
     \<exists>evs. w' = w\<lparr>trace := trace w @ evs\<rparr>
       \<and> le' = last_error le (map snd (calls evs))
       \<and> fl' = fl @ map (\<lambda>c. GetID (heap w (fst c))) (filter (is_failure \<circ> snd) (calls evs))
       \<and> (distinct (map (\<lambda>a. GetID (heap w a)) clients) \<longrightarrow>
            map fst (calls evs) = filter (\<lambda>a. GetID (heap w a) \<notin> set fl) clients
            \<and> logs evs = map (\<lambda>a. client_warning fn (heap w a))
                            (filter (\<lambda>a. GetID (heap w a) \<in> set fl) clients))"
proof (induction clients arbitrary: le fl s w)
  case Nil
  then have "w' = w\<lparr>trace := trace w @ []\<rparr>" "le' = le" "fl' = fl" by simp_all
  then show ?case by (intro exI [of _ "[]"]) (simp add: logs_def)
next
  case (Cons client clients)
  let ?gid = "\<lambda>a. GetID (heap w a)"
  show ?case
  proof (cases "?gid client \<in> set fl")
    case True
    let ?ev = "client_warning fn (heap w client)"
    from Cons.prems have
      "ForClients_loop fn f clients (le, fl, s, emit ?ev w) = (le', fl', s', w')"
      by (simp only: ForClients_loop_skip [OF True])
    from Cons.IH [OF this] obtain evs where
      w': "w' = (emit ?ev w)\<lparr>trace := trace (emit ?ev w) @ evs\<rparr>"
      and le': "le' = last_error le (map snd (calls evs))"
      and fl0: "fl' = fl @ map (\<lambda>c. GetID (heap (emit ?ev w) (fst c)))
                             (filter (is_failure \<circ> snd) (calls evs))"
      and d0: "distinct (map (\<lambda>a. GetID (heap (emit ?ev w) a)) clients) \<longrightarrow>
            map fst (calls evs) = filter (\<lambda>a. GetID (heap (emit ?ev w) a) \<notin> set fl) clients
            \<and> logs evs = map (\<lambda>a. client_warning fn (heap (emit ?ev w) a))
                            (filter (\<lambda>a. GetID (heap (emit ?ev w) a) \<in> set fl) clients)"
      by blast
    from fl0 have fl': "fl' = fl @ map (\<lambda>c. ?gid (fst c)) (filter (is_failure \<circ> snd) (calls evs))"
      by simp
    from d0 have d: "distinct (map ?gid clients) \<longrightarrow>
            map fst (calls evs) = filter (\<lambda>a. ?gid a \<notin> set fl) clients
            \<and> logs evs = map (\<lambda>a. client_warning fn (heap w a))
                            (filter (\<lambda>a. ?gid a \<in> set fl) clients)"
      by simp
    have "w' = w\<lparr>trace := trace w @ ?ev # evs\<rparr>" using w' by (simp add: emit_def)
    moreover have "le' = last_error le (map snd (calls (?ev # evs)))" using le' by simp
    moreover have "fl' = fl @ map (\<lambda>c. ?gid (fst c)) (filter (is_failure \<circ> snd) (calls (?ev # evs)))"
      using fl' by simp
    moreover have "distinct (map ?gid (client # clients)) \<longrightarrow>
            map fst (calls (?ev # evs)) = filter (\<lambda>a. ?gid a \<notin> set fl) (client # clients)
            \<and> logs (?ev # evs) = map (\<lambda>a. client_warning fn (heap w a))
                            (filter (\<lambda>a. ?gid a \<in> set fl) (client # clients))"
      using d True by (simp add: logs_def)
    ultimately show ?thesis by blast
  next
    case False
    obtain r s1 where fr: "f client s = (r, s1)" by (cases "f client s")
    let ?ev = "Call_function client r"
    let ?le1 = "if is_failure r then r else le"
    let ?fl1 = "if is_failure r then fl @ [?gid client] else fl"
    from Cons.prems have
      "ForClients_loop fn f clients (?le1, ?fl1, s1, emit ?ev w) = (le', fl', s', w')"
      by (simp only: ForClients_loop_call [of w client fl f s r s1, OF False fr])
    from Cons.IH [OF this] obtain evs where
      w': "w' = (emit ?ev w)\<lparr>trace := trace (emit ?ev w) @ evs\<rparr>"
      and le': "le' = last_error ?le1 (map snd (calls evs))"
      and fl0: "fl' = ?fl1 @ map (\<lambda>c. GetID (heap (emit ?ev w) (fst c)))
                              (filter (is_failure \<circ> snd) (calls evs))"
      and d0: "distinct (map (\<lambda>a. GetID (heap (emit ?ev w) a)) clients) \<longrightarrow>
            map fst (calls evs) = filter (\<lambda>a. GetID (heap (emit ?ev w) a) \<notin> set ?fl1) clients
            \<and> logs evs = map (\<lambda>a. client_warning fn (heap (emit ?ev w) a))
                            (filter (\<lambda>a. GetID (heap (emit ?ev w) a) \<in> set ?fl1) clients)"
      by blast
    from fl0 have fl': "fl' = ?fl1 @ map (\<lambda>c. ?gid (fst c)) (filter (is_failure \<circ> snd) (calls evs))"
      by simp
    from d0 have d: "distinct (map ?gid clients) \<longrightarrow>
            map fst (calls evs) = filter (\<lambda>a. ?gid a \<notin> set ?fl1) clients
            \<and> logs evs = map (\<lambda>a. client_warning fn (heap w a))
                            (filter (\<lambda>a. ?gid a \<in> set ?fl1) clients)"
      by simp
    have "w' = w\<lparr>trace := trace w @ ?ev # evs\<rparr>" using w' by (simp add: emit_def)
    moreover have "le' = last_error le (map snd (calls (?ev # evs)))"
      using le' by (simp add: last_error_Cons)
    moreover have "fl' = fl @ map (\<lambda>c. ?gid (fst c)) (filter (is_failure \<circ> snd) (calls (?ev # evs)))"
      using fl' by simp
    moreover have "distinct (map ?gid (client # clients)) \<longrightarrow>
            map fst (calls (?ev # evs)) = filter (\<lambda>a. ?gid a \<notin> set fl) (client # clients)
            \<and> logs (?ev # evs) = map (\<lambda>a. client_warning fn (heap w a))
                            (filter (\<lambda>a. ?gid a \<in> set fl) (client # clients))"
    proof
      assume dd: "distinct (map ?gid (client # clients))"
      then have "?gid client \<notin> ?gid ` set clients" by simp
      then have notin: "\<And>a. a \<in> set clients \<Longrightarrow> ?gid a \<noteq> ?gid client"
        by (metis imageI)
      have same1: "filter (\<lambda>a. ?gid a \<notin> set ?fl1) clients = filter (\<lambda>a. ?gid a \<notin> set fl) clients"
        by (rule filter_cong) (auto dest: notin)
      have same2: "filter (\<lambda>a. ?gid a \<in> set ?fl1) clients = filter (\<lambda>a. ?gid a \<in> set fl) clients"
        by (rule filter_cong) (auto dest: notin)
      from dd d have "map fst (calls evs) = filter (\<lambda>a. ?gid a \<notin> set ?fl1) clients"
        and "logs evs = map (\<lambda>a. client_warning fn (heap w a))
                            (filter (\<lambda>a. ?gid a \<in> set ?fl1) clients)"
        by simp_all
      with same1 same2 False
      show "map fst (calls (?ev # evs)) = filter (\<lambda>a. ?gid a \<notin> set fl) (client # clients)
            \<and> logs (?ev # evs) = map (\<lambda>a. client_warning fn (heap w a))
                            (filter (\<lambda>a. ?gid a \<in> set fl) (client # clients))"
        by (simp add: logs_def)
    qed
    ultimately show ?thesis by blast
  qed
qed

lemma log_failed_clients_post:
  "\<exists>lg. log_failed_clients e fn ids w = w\<lparr>trace := trace w @ lg\<rparr> \<and> calls lg = []"
proof (induction ids arbitrary: w)
  case Nil
  have "log_failed_clients e fn [] w = w\<lparr>trace := trace w @ []\<rparr>" by simp
  then show ?case by (intro exI [of _ "[]"]) simp
next
  case (Cons iId ids)
  show ?case
  proof (cases "GetClient e w iId")
    case None
    then have "log_failed_clients e fn (iId # ids) w = log_failed_clients e fn ids w" by simp
    with Cons.IH [of w] show ?thesis by simp
  next
    case (Some client)
    let ?ev = "client_warning fn (heap w client)"
    from Some have eq: "log_failed_clients e fn (iId # ids) w = log_failed_clients e fn ids (emit ?ev w)"
      by (simp add: LogClientWarning_def)
    from Cons.IH [of "emit ?ev w"] obtain lg where
      lg: "log_failed_clients e fn ids (emit ?ev w)
             = (emit ?ev w)\<lparr>trace := trace (emit ?ev w) @ lg\<rparr>" and c: "calls lg = []"
      by blast
    have "log_failed_clients e fn (iId # ids) w = w\<lparr>trace := trace w @ ?ev # lg\<rparr>"
      using eq lg by (simp add: emit_def)
    moreover have "calls (?ev # lg) = []" using c by simp
    ultimately show ?thesis by blast
  qed
qed







lemma ForCreatedClients_unfold:
  "ForCreatedClients e fn f s w =
     ForCreatedClients_loop f (callable_clients e w)
       (PVR_ERROR_NO_ERROR, clients_not_ready e w, s,
        log_failed_clients e fn (clients_not_ready e w) w)"
proof -
  have "log_failed_clients e fn [] w = w" by simp
  then show ?thesis
    by (cases "clients_not_ready e w = []")
       (simp_all add: ForCreatedClients_def callable_clients_def clients_not_ready_def
          split_beta)
qed

lemma ForCreatedClients_post:
  assumes "ForCreatedClients e fn f s w = (ret, failedClients, s', w')"
  shows "map fst (calls (new_events w w')) = map snd (callable_clients e w)
       \<and> ret = last_error PVR_ERROR_NO_ERROR (map snd (calls (new_events w w')))
       \<and> failedClients = clients_not_ready e w
           @ map fst (filter (is_failure \<circ> snd)
                        (zip (map fst (callable_clients e w))
                             (map snd (calls (new_events w w')))))"
proof -
  obtain lg where lg: "log_failed_clients e fn (clients_not_ready e w) w
                         = w\<lparr>trace := trace w @ lg\<rparr>" and cl: "calls lg = []"
    using log_failed_clients_post by blast
  from assms have "ForCreatedClients_loop f (callable_clients e w)
       (PVR_ERROR_NO_ERROR, clients_not_ready e w, s, w\<lparr>trace := trace w @ lg\<rparr>)
       = (ret, failedClients, s', w')"
    by (simp add: ForCreatedClients_unfold lg)
  from ForCreatedClients_loop_post [OF this] obtain evs where
    w': "w' = (w\<lparr>trace := trace w @ lg\<rparr>)\<lparr>trace := trace (w\<lparr>trace := trace w @ lg\<rparr>) @ evs\<rparr>"
    and c: "map fst (calls evs) = map snd (callable_clients e w)"
    and le: "ret = last_error PVR_ERROR_NO_ERROR (map snd (calls evs))"
    and fl: "failedClients = clients_not_ready e w @ map fst (filter (is_failure \<circ> snd)
                              (zip (map fst (callable_clients e w)) (map snd (calls evs))))"
    by blast
  from w' have "w' = w\<lparr>trace := trace w @ (lg @ evs)\<rparr>" by simp
  then have "new_events w w' = lg @ evs" by (simp only: new_events_update)
  then have "calls (new_events w w') = calls evs" by (simp add: calls_append cl)
  with c le fl show ?thesis by simp
qed

lemma ForClients_post:
  assumes "ForClients e fn clients f s w = (ret, failedClients, s', w')" "clients \<noteq> []"
  shows "ret = last_error PVR_ERROR_NO_ERROR (map snd (calls (new_events w w')))
       \<and> failedClients = not_allowed_clients w clients
           @ map (\<lambda>c. GetID (heap w (fst c))) (filter (is_failure \<circ> snd) (calls (new_events w w')))
       \<and> (distinct (map (\<lambda>a. GetID (heap w a)) clients) \<longrightarrow>
            map fst (calls (new_events w w'))
              = filter (\<lambda>a. GetID (heap w a) \<notin> set (not_allowed_clients w clients)) clients
            \<and> logs (new_events w w')
              = map (\<lambda>a. client_warning fn (heap w a))
                  (filter (\<lambda>a. GetID (heap w a) \<in> set (not_allowed_clients w clients)) clients))"
proof -
  from assms have "ForClients_loop fn f clients
      (PVR_ERROR_NO_ERROR, not_allowed_clients w clients, s, w) = (ret, failedClients, s', w')"
    by (simp add: ForClients_def)
  from ForClients_loop_post [OF this] obtain evs where
    w': "w' = w\<lparr>trace := trace w @ evs\<rparr>" and
    rest: "ret = last_error PVR_ERROR_NO_ERROR (map snd (calls evs))
       \<and> failedClients = not_allowed_clients w clients
           @ map (\<lambda>c. GetID (heap w (fst c))) (filter (is_failure \<circ> snd) (calls evs))
       \<and> (distinct (map (\<lambda>a. GetID (heap w a)) clients) \<longrightarrow>
            map fst (calls evs)
              = filter (\<lambda>a. GetID (heap w a) \<notin> set (not_allowed_clients w clients)) clients
            \<and> logs evs
              = map (\<lambda>a. client_warning fn (heap w a))
                  (filter (\<lambda>a. GetID (heap w a) \<in> set (not_allowed_clients w clients)) clients))"
    by blast
  from w' have "new_events w w' = evs" by (simp only: new_events_update)
  with rest show ?thesis by simp
qed

lemma last_error_no_error:
  "last_error PVR_ERROR_NO_ERROR rs = PVR_ERROR_NO_ERROR \<longleftrightarrow> list_all (\<lambda>r. \<not> is_failure r) rs"
proof (cases "filter is_failure rs")
  case Nil
  then have "\<forall>r\<in>set rs. \<not> is_failure r" by (simp add: filter_empty_conv)
  with Nil show ?thesis by (simp add: last_error_def list_all_iff)
next
  case (Cons x xs)
  then have "last (filter is_failure rs) \<in> set (filter is_failure rs)" by simp
  then have "is_failure (last (filter is_failure rs))" and "last (filter is_failure rs) \<in> set rs"
    by simp_all
  moreover from Cons have "last_error PVR_ERROR_NO_ERROR rs = last (filter is_failure rs)"
    by (simp add: last_error_def)
  ultimately show ?thesis by (auto simp: list_all_iff is_failure_def)
qed

text \<open>
  C2. In a pass of \<^verbatim>\<open>ForCreatedClients\<close>, and in a pass of \<^verbatim>\<open>ForClients\<close> over a list of
  clients that is not empty, the status returned is the last result of a call in the pass
  that is neither \<^verbatim>\<open>NO_ERROR\<close> nor \<^verbatim>\<open>NOT_IMPLEMENTED\<close>, and \<^verbatim>\<open>NO_ERROR\<close> when there is
  none: it is \<^verbatim>\<open>NO_ERROR\<close> exactly when every call returned one of the two. The list of
  failed clients is the list of the clients not called, followed by the id of each client
  whose call returned such an error, in the order of the calls; a call that returns
  \<^verbatim>\<open>NOT_IMPLEMENTED\<close> adds nothing to it. \<^verbatim>\<open>ForClients\<close> over the empty list is
  \<^verbatim>\<open>ForCreatedClients\<close>.
\<close>

theorem fan_out_aggregation:
  "(ForCreatedClients e fn f s w = (ret, failedClients, s', w') \<longrightarrow>
      ret = last_error PVR_ERROR_NO_ERROR (map snd (calls (new_events w w')))
      \<and> (ret = PVR_ERROR_NO_ERROR
           \<longleftrightarrow> list_all (\<lambda>r. \<not> is_failure r) (map snd (calls (new_events w w'))))
      \<and> failedClients = clients_not_ready e w
           @ map fst (filter (is_failure \<circ> snd)
                        (zip (map fst (callable_clients e w))
                             (map snd (calls (new_events w w'))))))
   \<and> (clients \<noteq> [] \<and> ForClients e fn clients f s w = (ret2, failedClients2, s2, w2) \<longrightarrow>
      ret2 = last_error PVR_ERROR_NO_ERROR (map snd (calls (new_events w w2)))
      \<and> (ret2 = PVR_ERROR_NO_ERROR
           \<longleftrightarrow> list_all (\<lambda>r. \<not> is_failure r) (map snd (calls (new_events w w2))))
      \<and> failedClients2 = not_allowed_clients w clients
           @ map (\<lambda>c. GetID (heap w (fst c)))
               (filter (is_failure \<circ> snd) (calls (new_events w w2))))
   \<and> ForClients e fn [] f s w = ForCreatedClients e fn f s w"
proof (intro conjI impI)
  show "ForClients e fn [] f s w = ForCreatedClients e fn f s w"
    by (simp add: ForClients_def)
next
  assume a: "ForCreatedClients e fn f s w = (ret, failedClients, s', w')"
  note p = ForCreatedClients_post [OF a]
  from p show r: "ret = last_error PVR_ERROR_NO_ERROR (map snd (calls (new_events w w')))"
    by simp
  show "ret = PVR_ERROR_NO_ERROR
          \<longleftrightarrow> list_all (\<lambda>r. \<not> is_failure r) (map snd (calls (new_events w w')))"
    unfolding r by (rule last_error_no_error)
  from p show "failedClients = clients_not_ready e w
           @ map fst (filter (is_failure \<circ> snd)
                        (zip (map fst (callable_clients e w))
                             (map snd (calls (new_events w w')))))"
    by simp
next
  assume "clients \<noteq> [] \<and> ForClients e fn clients f s w = (ret2, failedClients2, s2, w2)"
  then have a: "ForClients e fn clients f s w = (ret2, failedClients2, s2, w2)"
    and ne: "clients \<noteq> []" by simp_all
  note p = ForClients_post [OF a ne]
  from p show r: "ret2 = last_error PVR_ERROR_NO_ERROR (map snd (calls (new_events w w2)))"
    by simp
  show "ret2 = PVR_ERROR_NO_ERROR
          \<longleftrightarrow> list_all (\<lambda>r. \<not> is_failure r) (map snd (calls (new_events w w2)))"
    unfolding r by (rule last_error_no_error)
  from p show "failedClients2 = not_allowed_clients w clients
           @ map (\<lambda>c. GetID (heap w (fst c)))
               (filter (is_failure \<circ> snd) (calls (new_events w w2)))"
    by simp
qed




lemma requested_key:
  assumes d: "distinct (map fst (m_clientMap w))"
    and sub: "\<forall>a\<in>set clients. (GetID (heap w a), a) \<in> set (m_clientMap w)"
    and mem: "(k, a) \<in> set (m_clientMap w)"
  shows "list_ex (\<lambda>client. GetID (heap w client) = k) clients
           \<longleftrightarrow> a \<in> set clients \<and> GetID (heap w a) = k"
proof
  assume "list_ex (\<lambda>client. GetID (heap w client) = k) clients"
  then obtain c where c: "c \<in> set clients" "GetID (heap w c) = k"
    by (auto simp: list_ex_iff)
  with sub have "(k, c) \<in> set (m_clientMap w)" by auto
  with d mem have "c = a" by (meson eq_key_imp_eq_value)
  with c show "a \<in> set clients \<and> GetID (heap w a) = k" by simp
next
  assume "a \<in> set clients \<and> GetID (heap w a) = k"
  then show "list_ex (\<lambda>client. GetID (heap w client) = k) clients"
    by (auto simp: list_ex_iff)
qed

lemma in_map_fst_filter:
  "k \<in> set (map fst (filter P m)) \<longleftrightarrow> (\<exists>entry\<in>set m. fst entry = k \<and> P entry)"
  by (induction m) auto

lemma not_allowed_requested:
  assumes d: "distinct (map fst (m_clientMap w))"
    and sub: "\<forall>a\<in>set clients. (GetID (heap w a), a) \<in> set (m_clientMap w)"
    and a: "a \<in> set clients"
  shows "GetID (heap w a) \<in> set (not_allowed_clients w clients) \<longleftrightarrow> \<not> callable w a"
proof -
  from sub a have mem: "(GetID (heap w a), a) \<in> set (m_clientMap w)" by simp
  have "GetID (heap w a) \<in> set (not_allowed_clients w clients)
          \<longleftrightarrow> (\<exists>entry\<in>set (m_clientMap w). fst entry = GetID (heap w a)
                \<and> \<not> (callable w (snd entry)
                       \<and> list_ex (\<lambda>client. GetID (heap w client) = fst entry) clients))"
    unfolding not_allowed_clients_def callable_def in_map_fst_filter by simp
  also have "\<dots> \<longleftrightarrow> \<not> (callable w a
                       \<and> list_ex (\<lambda>client. GetID (heap w client) = GetID (heap w a)) clients)"
  proof
    assume "\<exists>entry\<in>set (m_clientMap w). fst entry = GetID (heap w a)
                \<and> \<not> (callable w (snd entry)
                       \<and> list_ex (\<lambda>client. GetID (heap w client) = fst entry) clients)"
    then obtain k b where kb: "(k, b) \<in> set (m_clientMap w)" "k = GetID (heap w a)"
      "\<not> (callable w b \<and> list_ex (\<lambda>client. GetID (heap w client) = k) clients)"
      by auto
    with d mem have "b = a" by (meson eq_key_imp_eq_value)
    with kb show "\<not> (callable w a
                       \<and> list_ex (\<lambda>client. GetID (heap w client) = GetID (heap w a)) clients)"
      by simp
  next
    assume "\<not> (callable w a
                       \<and> list_ex (\<lambda>client. GetID (heap w client) = GetID (heap w a)) clients)"
    with mem show "\<exists>entry\<in>set (m_clientMap w). fst entry = GetID (heap w a)
                \<and> \<not> (callable w (snd entry)
                       \<and> list_ex (\<lambda>client. GetID (heap w client) = fst entry) clients)"
      by force
  qed
  also have "\<dots> \<longleftrightarrow> \<not> callable w a"
    using a by (auto simp: list_ex_iff)
  finally show ?thesis .
qed

lemma requested_distinct_ids:
  assumes d: "distinct (map fst (m_clientMap w))"
    and sub: "\<forall>a\<in>set clients. (GetID (heap w a), a) \<in> set (m_clientMap w)"
    and dc: "distinct clients"
  shows "distinct (map (\<lambda>a. GetID (heap w a)) clients)"
proof -
  have "inj_on (\<lambda>a. GetID (heap w a)) (set clients)"
  proof (rule inj_onI)
    fix a b assume ab: "a \<in> set clients" "b \<in> set clients" "GetID (heap w a) = GetID (heap w b)"
    with sub have "(GetID (heap w a), a) \<in> set (m_clientMap w)"
      "(GetID (heap w a), b) \<in> set (m_clientMap w)" by auto
    with d show "a = b" by (meson eq_key_imp_eq_value)
  qed
  with dc show ?thesis by (simp add: distinct_map)
qed

text \<open>
  C4. \<^verbatim>\<open>ForClients\<close> with a list of distinct registered clients that is not empty, on a
  registry with distinct keys: the operation is called on exactly the clients of the list
  that are ready to use and not ignored; for each other client of the list
  \<^verbatim>\<open>LogClientWarning\<close> writes a line, and these are the only lines written. Every registry
  entry that is not ready, is ignored or is not in the list has its key at the front of
  the returned list of failed clients, before the ids of the clients whose call failed: in
  particular every entry outside the list is in it. The status depends on the results of
  the calls alone.
\<close>

theorem ForClients_subset:
  assumes ne: "clients \<noteq> []"
    and d: "distinct (map fst (m_clientMap w))"
    and dc: "distinct clients"
    and sub: "\<forall>a\<in>set clients. (GetID (heap w a), a) \<in> set (m_clientMap w)"
    and run: "ForClients e fn clients f s w = (ret, failedClients, s', w')"
  shows "map fst (calls (new_events w w')) = filter (callable w) clients
       \<and> logs (new_events w w')
           = map (\<lambda>a. client_warning fn (heap w a)) (filter (\<lambda>a. \<not> callable w a) clients)
       \<and> failedClients
           = map fst (filter (\<lambda>entry. \<not> (callable w (snd entry) \<and> snd entry \<in> set clients
                                           \<and> GetID (heap w (snd entry)) = fst entry))
                        (m_clientMap w))
             @ map (\<lambda>c. GetID (heap w (fst c)))
                 (filter (is_failure \<circ> snd) (calls (new_events w w')))
       \<and> (\<forall>entry\<in>set (m_clientMap w). snd entry \<notin> set clients \<longrightarrow> fst entry \<in> set failedClients)
       \<and> ret = last_error PVR_ERROR_NO_ERROR (map snd (calls (new_events w w')))"
proof -
  note p = ForClients_post [OF run ne]
  have di: "distinct (map (\<lambda>a. GetID (heap w a)) clients)"
    using d sub dc by (rule requested_distinct_ids)
  have f1: "filter (\<lambda>a. GetID (heap w a) \<notin> set (not_allowed_clients w clients)) clients
              = filter (callable w) clients"
    by (rule filter_cong) (simp_all add: not_allowed_requested [OF d sub])
  have f2: "filter (\<lambda>a. GetID (heap w a) \<in> set (not_allowed_clients w clients)) clients
              = filter (\<lambda>a. \<not> callable w a) clients"
    by (rule filter_cong) (simp_all add: not_allowed_requested [OF d sub])
  have na: "not_allowed_clients w clients
              = map fst (filter (\<lambda>entry. \<not> (callable w (snd entry) \<and> snd entry \<in> set clients
                                           \<and> GetID (heap w (snd entry)) = fst entry))
                        (m_clientMap w))"
    unfolding not_allowed_clients_def
  proof (rule arg_cong [where f = "map fst"], rule filter_cong [OF refl])
    fix entry assume "entry \<in> set (m_clientMap w)"
    then have "(fst entry, snd entry) \<in> set (m_clientMap w)" by simp
    from requested_key [OF d sub this]
    show "(\<not> (ReadyToUse (heap w (snd entry)) \<and> \<not> IgnoreClient (heap w (snd entry))
              \<and> list_ex (\<lambda>client. GetID (heap w client) = fst entry) clients))
          = (\<not> (callable w (snd entry) \<and> snd entry \<in> set clients
                 \<and> GetID (heap w (snd entry)) = fst entry))"
      by (simp add: callable_def)
  qed
  have c1: "map fst (calls (new_events w w')) = filter (callable w) clients"
    using p di f1 by simp
  have c2: "logs (new_events w w')
           = map (\<lambda>a. client_warning fn (heap w a)) (filter (\<lambda>a. \<not> callable w a) clients)"
    using p di f2 by simp
  have c3: "failedClients
           = map fst (filter (\<lambda>entry. \<not> (callable w (snd entry) \<and> snd entry \<in> set clients
                                           \<and> GetID (heap w (snd entry)) = fst entry))
                        (m_clientMap w))
             @ map (\<lambda>c. GetID (heap w (fst c)))
                 (filter (is_failure \<circ> snd) (calls (new_events w w')))"
    using p na by simp
  have c4: "\<forall>entry\<in>set (m_clientMap w). snd entry \<notin> set clients \<longrightarrow> fst entry \<in> set failedClients"
  proof (intro ballI impI)
    fix entry assume "entry \<in> set (m_clientMap w)" "snd entry \<notin> set clients"
    then have "fst entry \<in> fst ` {x \<in> set (m_clientMap w).
        \<not> (callable w (snd x) \<and> snd x \<in> set clients \<and> GetID (heap w (snd x)) = fst x)}"
      by (intro imageI) simp
    then show "fst entry \<in> set failedClients" unfolding c3 by simp
  qed
  from p have c5: "ret = last_error PVR_ERROR_NO_ERROR (map snd (calls (new_events w w')))"
    by simp
  from c1 c2 c3 c4 c5 show ?thesis by blast
qed

subsection \<open>The fan-out on the concrete world\<close>

lemma test_ClientId:
  "ClientIdFromAddonIdAndInstanceId test_env ''pvr.hts'' 1 = 7"
  "ClientIdFromAddonIdAndInstanceId test_env ''pvr.demo'' 1 = 8"
  "ClientIdFromAddonIdAndInstanceId test_env ''pvr.demo'' 2 = 10"
proof -
  have s: "to_string 2 = ''2''" by code_simp
  show "ClientIdFromAddonIdAndInstanceId test_env ''pvr.hts'' 1 = 7"
    "ClientIdFromAddonIdAndInstanceId test_env ''pvr.demo'' 1 = 8"
    "ClientIdFromAddonIdAndInstanceId test_env ''pvr.demo'' 2 = 10"
    by (simp_all add: ClientIdFromAddonIdAndInstanceId_def hash_input_def test_env_simps s)
qed

lemma test_GetCallableClients:
  "GetCallableClients test_env test_world [] = (PVR_ERROR_SERVER_ERROR, [(7, 0), (8, 1)], [10])"
  by (simp add: GetCallableClients_def GetAddonInfos_def test_world_simps test_addons_def
        test_ClientId test_GetClient test_heap_simps pvr_client_def)

lemma test_callable:
  "callable_clients test_env test_world = [(7, 0), (8, 1)]"
  "clients_not_ready test_env test_world = [10]"
  by (simp_all add: callable_clients_def clients_not_ready_def test_GetCallableClients)

lemma test_not_allowed:
  "not_allowed_clients test_world [0, Suc 0] = [10]"
  "not_allowed_clients test_world [Suc 0] = [7, 10]"
  "not_allowed_clients test_world [2, Suc 0] = [7, 10]"
  by (simp_all add: not_allowed_clients_def test_world_simps test_heap_simps pvr_client_def)

lemma test_ForCreatedClients:
  "ForCreatedClients test_env ''GetTimers'' test_op 0 test_world =
     (PVR_ERROR_SERVER_ERROR, [10, 8], 2,
      test_world\<lparr>trace := [Log_WARNING (NotCallingNotReady ''GetTimers'' ''pvr.demo''),
                            Call_function 0 PVR_ERROR_NOT_IMPLEMENTED,
                            Call_function 1 PVR_ERROR_SERVER_ERROR]\<rparr>)"
  by (simp add: ForCreatedClients_unfold test_callable test_GetClient LogClientWarning_def Let_def
        client_warning_def test_op_def emit_def test_world_simps test_heap_simps pvr_client_def)

lemma test_ForClients:
  "ForClients test_env ''GetTimers'' [0, 1] test_op 0 test_world =
     (PVR_ERROR_SERVER_ERROR, [10, 8], 2,
      test_world\<lparr>trace := [Call_function 0 PVR_ERROR_NOT_IMPLEMENTED,
                            Call_function 1 PVR_ERROR_SERVER_ERROR]\<rparr>)"
  by (simp add: ForClients_def test_not_allowed test_op_def emit_def Let_def test_world_simps
        test_heap_simps pvr_client_def)

lemma test_ForClients_skip:
  "ForClients test_env ''GetTimers'' [2, 1] test_op 0 test_world =
     (PVR_ERROR_SERVER_ERROR, [7, 10, 8], 1,
      test_world\<lparr>trace := [Log_WARNING (NotCallingNotReady ''GetTimers'' ''pvr.demo''),
                            Call_function 1 PVR_ERROR_SERVER_ERROR]\<rparr>)"
  by (simp add: ForClients_def test_not_allowed LogClientWarning_def client_warning_def Let_def
        test_op_def emit_def test_world_simps test_heap_simps pvr_client_def)

lemma test_ForClients_one:
  "ForClients test_env ''GetTimers'' [1] ok_op 0 test_world =
     (PVR_ERROR_NO_ERROR, [7, 10], 1,
      test_world\<lparr>trace := [Call_function 1 PVR_ERROR_NO_ERROR]\<rparr>)"
  by (simp add: ForClients_def test_not_allowed ok_op_def emit_def Let_def test_world_simps
        test_heap_simps pvr_client_def)


lemmas test_fan_out =
  test_ForCreatedClients test_ForClients test_ForClients_skip test_ForClients_one
  test_ForCreatedClients [unfolded One_nat_def] test_ForClients [unfolded One_nat_def]
  test_ForClients_skip [unfolded One_nat_def] test_ForClients_one [unfolded One_nat_def]

lemma new_events_test [simp]: "new_events test_world (test_world\<lparr>trace := evs\<rparr>) = evs"
  by (simp add: new_events_def test_world_simps)

theorem fan_out_aggregation_witness:
  "ForCreatedClients test_env ''GetTimers'' test_op 0 test_world =
     (PVR_ERROR_SERVER_ERROR, [10, 8], 2,
      test_world\<lparr>trace := [Log_WARNING (NotCallingNotReady ''GetTimers'' ''pvr.demo''),
                            Call_function 0 PVR_ERROR_NOT_IMPLEMENTED,
                            Call_function 1 PVR_ERROR_SERVER_ERROR]\<rparr>)
   \<and> [0, 1] \<noteq> ([] :: addr list)
   \<and> ForClients test_env ''GetTimers'' [0, 1] test_op 0 test_world =
     (PVR_ERROR_SERVER_ERROR, [10, 8], 2,
      test_world\<lparr>trace := [Call_function 0 PVR_ERROR_NOT_IMPLEMENTED,
                            Call_function 1 PVR_ERROR_SERVER_ERROR]\<rparr>)
   \<and> last_error PVR_ERROR_NO_ERROR [PVR_ERROR_NOT_IMPLEMENTED, PVR_ERROR_SERVER_ERROR]
       = PVR_ERROR_SERVER_ERROR
   \<and> clients_not_ready test_env test_world = [10]
   \<and> not_allowed_clients test_world [0, 1] = [10]"
  using fan_out_aggregation [of test_env "''GetTimers''" test_op 0 test_world
      PVR_ERROR_SERVER_ERROR "[10, 8]" 2
      "test_world\<lparr>trace := [Log_WARNING (NotCallingNotReady ''GetTimers'' ''pvr.demo''),
                            Call_function 0 PVR_ERROR_NOT_IMPLEMENTED,
                            Call_function 1 PVR_ERROR_SERVER_ERROR]\<rparr>"
      "[0, 1]" PVR_ERROR_SERVER_ERROR "[10, 8]" 2
      "test_world\<lparr>trace := [Call_function 0 PVR_ERROR_NOT_IMPLEMENTED,
                            Call_function 1 PVR_ERROR_SERVER_ERROR]\<rparr>"]
  by (simp add: test_fan_out test_callable test_not_allowed
        last_error_def is_failure_def)










theorem ForClients_subset_witness:
  "[2, 1] \<noteq> ([] :: addr list)
   \<and> distinct (map fst (m_clientMap test_world))
   \<and> distinct [2, 1 :: addr]
   \<and> (GetID (heap test_world 2), 2) \<in> set (m_clientMap test_world)
   \<and> (GetID (heap test_world 1), 1) \<in> set (m_clientMap test_world)
   \<and> ForClients test_env ''GetTimers'' [2, 1] test_op 0 test_world =
     (PVR_ERROR_SERVER_ERROR, [7, 10, 8], 1,
      test_world\<lparr>trace := [Log_WARNING (NotCallingNotReady ''GetTimers'' ''pvr.demo''),
                            Call_function 1 PVR_ERROR_SERVER_ERROR]\<rparr>)
   \<and> filter (callable test_world) [2, 1] = [1]
   \<and> map (\<lambda>a. client_warning ''GetTimers'' (heap test_world a))
         (filter (\<lambda>a. \<not> callable test_world a) [2, 1])
       = [Log_WARNING (NotCallingNotReady ''GetTimers'' ''pvr.demo'')]"
proof -
  have ne: "[2, 1] \<noteq> ([] :: addr list)" by simp
  have d: "distinct (map fst (m_clientMap test_world))" by (simp add: test_world_simps)
  have dc: "distinct [2, 1 :: addr]" by simp
  have sub: "\<forall>a\<in>set [2, 1]. (GetID (heap test_world a), a) \<in> set (m_clientMap test_world)"
    by (simp add: test_world_simps test_heap_simps pvr_client_def)
  note inst = ForClients_subset [OF ne d dc sub test_ForClients_skip]
  from inst have "map fst (calls (new_events test_world
      (test_world\<lparr>trace := [Log_WARNING (NotCallingNotReady ''GetTimers'' ''pvr.demo''),
                            Call_function 1 PVR_ERROR_SERVER_ERROR]\<rparr>)))
      = filter (callable test_world) [2, 1]"
    by blast
  then have c: "filter (callable test_world) [2, 1] = [1]" by simp
  from inst have "logs (new_events test_world
      (test_world\<lparr>trace := [Log_WARNING (NotCallingNotReady ''GetTimers'' ''pvr.demo''),
                            Call_function 1 PVR_ERROR_SERVER_ERROR]\<rparr>))
      = map (\<lambda>a. client_warning ''GetTimers'' (heap test_world a))
          (filter (\<lambda>a. \<not> callable test_world a) [2, 1])"
    by blast
  then have l: "map (\<lambda>a. client_warning ''GetTimers'' (heap test_world a))
         (filter (\<lambda>a. \<not> callable test_world a) [2, 1])
       = [Log_WARNING (NotCallingNotReady ''GetTimers'' ''pvr.demo'')]"
    by (simp add: logs_def)
  show ?thesis
    using c l sub by (simp add: test_fan_out test_world_simps)
qed

text \<open>
  An entry outside the list asked for: \<^verbatim>\<open>pvr.hts\<close> (id 7) is registered, ready to use and not
  ignored, and is not in the list of clients asked for; its id is in the list of failed
  clients that \<^verbatim>\<open>ForClients\<close> returns, and no line is written to the log for it.
\<close>

theorem ForClients_not_participating_counterexample:
  "(7, 0) \<in> set (m_clientMap test_world)
   \<and> ReadyToUse (heap test_world 0) \<and> \<not> IgnoreClient (heap test_world 0)
   \<and> 0 \<notin> set [1 :: addr]
   \<and> ForClients test_env ''GetTimers'' [1] ok_op 0 test_world =
     (PVR_ERROR_NO_ERROR, [7, 10], 1,
      test_world\<lparr>trace := [Call_function 1 PVR_ERROR_NO_ERROR]\<rparr>)
   \<and> 7 \<in> set (fst (snd (ForClients test_env ''GetTimers'' [1] ok_op 0 test_world)))
   \<and> logs (new_events test_world
              (snd (snd (snd (ForClients test_env ''GetTimers'' [1] ok_op 0 test_world))))) = []"
  by (simp add: test_fan_out test_world_simps test_heap_simps pvr_client_def logs_def)

subsection \<open>Reconciliation with the add-on manager\<close>

lemma n_actions_append [simp]:
  "n_actions (acts\<lparr>addonsToCreate := addonsToCreate acts @ [x]\<rparr>) = Suc (n_actions acts)"
  "n_actions (acts\<lparr>addonsToReCreate := addonsToReCreate acts @ [y]\<rparr>) = Suc (n_actions acts)"
  "n_actions (acts\<lparr>addonsToDestroy := addonsToDestroy acts @ [z]\<rparr>) = Suc (n_actions acts)"
  by (simp_all add: n_actions_def)

lemma classify_instance_step:
  assumes "classify_instance e addon instanceInfo (w, acts) = Some (w', acts')"
  shows "(w' = w \<and> acts' = acts) \<or> n_actions acts' = Suc (n_actions acts)"
  using assms
  by (auto simp: classify_instance_def Let_def make_shared_def split_beta
           split: if_splits option.splits)

lemma classify_instances_grow:
  assumes "classify_instances e addon infos (w, acts) = Some (w', acts')"
  shows "n_actions acts \<le> n_actions acts'
       \<and> (n_actions acts' = n_actions acts \<longrightarrow> w' = w \<and> acts' = acts)"
  using assms
proof (induction infos arbitrary: w acts)
  case Nil
  then show ?case by simp
next
  case (Cons instanceInfo infos)
  from Cons.prems obtain w1 acts1 where
    one: "classify_instance e addon instanceInfo (w, acts) = Some (w1, acts1)"
    and rest: "classify_instances e addon infos (w1, acts1) = Some (w', acts')"
    by (auto split: option.splits)
  from Cons.IH [OF rest] classify_instance_step [OF one]
  show ?case by auto
qed

lemma classify_addons_grow:
  assumes "classify_addons e changedAddonId changedInstanceId addonsWithStatus (w, acts)
             = Some (w', acts')"
  shows "n_actions acts \<le> n_actions acts'
       \<and> (n_actions acts' = n_actions acts \<longrightarrow> w' = w \<and> acts' = acts)"
  using assms
proof (induction addonsWithStatus arbitrary: w acts)
  case Nil
  then show ?case by simp
next
  case (Cons addonWithStatus addonsWithStatus)
  from Cons.prems obtain w1 acts1 where
    one: "classify_instances e (fst addonWithStatus)
             (instanceIdsWithStatus e changedAddonId changedInstanceId
                (fst addonWithStatus) (snd addonWithStatus)) (w, acts) = Some (w1, acts1)"
    and rest: "classify_addons e changedAddonId changedInstanceId addonsWithStatus (w1, acts1)
                 = Some (w', acts')"
    by (auto split: option.splits)
  from Cons.IH [OF rest] classify_instances_grow [OF one]
  show ?case by auto
qed

lemma n_actions_0:
  "n_actions acts = 0 \<longleftrightarrow>
     addonsToCreate acts = [] \<and> addonsToReCreate acts = [] \<and> addonsToDestroy acts = []"
  by (simp add: n_actions_def)

text \<open>
  C8. When the three lists \<^verbatim>\<open>UpdateAddons\<close> computes are all empty, the run returns the
  world it was given: computing the lists has changed nothing (no client was made, no
  settings were reloaded), the PVR manager is neither stopped nor started, no progress is
  reported, and the registry and every client are as before.
\<close>

theorem UpdateAddons_no_actions:
  "computed_actions e changedAddonId changedInstanceId w = Some (w1, acts)
   \<and> addonsToCreate acts = [] \<and> addonsToReCreate acts = [] \<and> addonsToDestroy acts = []
   \<longrightarrow> UpdateAddons e changedAddonId changedInstanceId w = Some w
       \<and> w1 = w
       \<and> (\<forall>w'. UpdateAddons e changedAddonId changedInstanceId w = Some w' \<longrightarrow>
             trace w' = trace w \<and> m_clientMap w' = m_clientMap w \<and> heap w' = heap w)"
proof (intro impI)
  assume a: "computed_actions e changedAddonId changedInstanceId w = Some (w1, acts)
   \<and> addonsToCreate acts = [] \<and> addonsToReCreate acts = [] \<and> addonsToDestroy acts = []"
  then have c: "classify_addons e changedAddonId changedInstanceId
       (map (\<lambda>addon. (addon, \<not> IsAddonDisabled addon)) (GetAddonInfos w False))
       (w, no_actions) = Some (w1, acts)"
    and z: "n_actions acts = 0"
    by (simp_all add: computed_actions_def n_actions_0)
  have "n_actions no_actions = 0" by (simp add: n_actions_def no_actions_def)
  with classify_addons_grow [OF c] z have same: "w1 = w" by simp
  have u: "UpdateAddons e changedAddonId changedInstanceId w = Some w"
    using a c same by (simp add: UpdateAddons_def Let_def)
  show "UpdateAddons e changedAddonId changedInstanceId w = Some w
       \<and> w1 = w
       \<and> (\<forall>w'. UpdateAddons e changedAddonId changedInstanceId w = Some w' \<longrightarrow>
             trace w' = trace w \<and> m_clientMap w' = m_clientMap w \<and> heap w' = heap w)"
    using u same by simp
qed

lemma idle_world_simps:
  "heap idle_world = test_heap"
  "m_clientMap idle_world = [(10, 2)]"
  "trace idle_world = []"
  "GetAddonInfos idle_world False =
     [\<lparr>addon_ID = ''pvr.demo'', addon_Name = ''pvr.demo'',
       addon_Icon = ''pvr.demo/icon.png'', GetKnownInstanceIds = [1, 2],
       IsAddonDisabled = True\<rparr>]"
  by (simp_all add: idle_world_def GetAddonInfos_def)

lemma idle_computed_actions:
  "computed_actions test_env [] 0 idle_world = Some (idle_world, no_actions)"
  by (simp add: computed_actions_def idle_world_simps instanceIdsWithStatus_def
        classify_instance_def IsCreatedClient_def IsKnownClient_def test_heap_simps
        pvr_client_def test_env_simps)

theorem UpdateAddons_no_actions_witness:
  "computed_actions test_env [] 0 idle_world = Some (idle_world, no_actions)
   \<and> addonsToCreate no_actions = [] \<and> addonsToReCreate no_actions = []
   \<and> addonsToDestroy no_actions = []
   \<and> UpdateAddons test_env [] 0 idle_world = Some idle_world"
  using UpdateAddons_no_actions [of test_env "[]" 0 idle_world idle_world no_actions]
  by (simp add: idle_computed_actions no_actions_def)

end
